theory Spec2Isabelle
  imports Main "HOL-Library.Word"
begin

section \<open>Data model of package broker\<close>

text \<open>
  Go's \<open>uint64\<close> is a 64-bit word. \<open>time.Duration\<close> is an \<open>int64\<close> counting
  nanoseconds: it is kept as a 64-bit word as well, read with \<open>sint\<close>; the conversion
  \<open>time.Duration(x)\<close> of a \<open>uint64\<close> keeps the bits. A Go \<open>error\<close> is
  \<open>go_error option\<close>, \<open>None\<close> being \<open>nil\<close>.
\<close>

type_synonym uint64 = "64 word"
type_synonym Duration = "64 word"
type_synonym bytes = "8 word list"

datatype go_error = GoError string

definition Second :: Duration where
  "Second = 1000000000"

definition ttrMargin :: Duration where
  "ttrMargin = 1 * Second"

definition TimeoutTries :: uint64 where
  "TimeoutTries = 1"

definition ReleaseTries :: uint64 where
  "ReleaseTries = 10"

text \<open>
  The fields of \<open>Broker\<close> that the reserve loop reads. \<open>results\<close> records whether
  the results channel is non-nil; the logger, the context and the jobReceived channel
  appear as events and loop state below.
\<close>

record Broker =
  Address :: string
  Cmd :: string
  Tube :: string
  results :: bool

text \<open>
  \<open>ExitStatus\<close> is a Go \<open>int\<close>; the code only copies it and compares it with 0,
  so it is an unbounded integer here.
\<close>

record JobResult =
  Buried :: bool
  Executed :: bool
  ExitStatus :: int
  JobId :: uint64
  Stdout :: bytes
  TimedOut :: bool
  Error :: "go_error option"

record Job =
  Id_job :: uint64
  Body :: bytes

record WaitResult =
  Status :: int
  Err :: "go_error option"

text \<open>What a call of the reserve loop does to the outside world, in program order.\<close>

datatype event =
    Reserve
  | JobReceived
  | Timeouts
  | Releases
  | TimeLeft
  | Bury
  | Delete
  | Release Duration
  | Touch
  | NewTicker Duration
  | TickerStop
  | NewTimer Duration
  | TimerStop
  | NewCommand string
  | StartWithStdin bytes
  | Terminate
  | Emit JobResult

text \<open>
  What \<open>bs.MustReserveWithTimeout\<close> hands back: a job, the timeout sentinel, or a
  panic on any other error.
\<close>

datatype reserve_result =
    Reserved uint64 bytes
  | ReserveTimeout
  | ReservePanic go_error

text \<open>
  One receive of the \<open>select\<close> in the stdout loop, and one of the wait loop, in the order
  the runtime resolved them. A list that ends without \<open>OutClosed\<close> (without \<open>WaitC\<close>)
  is a loop that blocks for ever.
\<close>

datatype stdout_ev = TickerC | OutData bytes | OutClosed

datatype wait_ev = WaitC WaitResult | TimerC

text \<open>
  The calls into packages \<open>bs\<close> and \<open>cmd\<close> are not modelled by their code: what
  they answer during one iteration of the loop is a parameter, each Go pair
  \<open>(value, err)\<close> as a pair, each \<open>err\<close> as an option. \<open>Releases_r\<close> answers the
  query of the policy check and \<open>Releases2_r\<close> the one inside \<open>handleResult\<close>.
  \<open>cancel_fires\<close> says that the shared context is cancelled while this iteration is
  past the cancellation check.
\<close>

record iter_env =
  cancel_fires :: bool
  reserve_r :: reserve_result
  Timeouts_r :: "uint64 \<times> go_error option"
  Releases_r :: "uint64 \<times> go_error option"
  TimeLeft_r :: "Duration \<times> go_error option"
  NewCommand_r :: "go_error option"
  Start_r :: "go_error option"
  out_events :: "stdout_ev list"
  wait_events :: "wait_ev list"
  Releases2_r :: "uint64 \<times> go_error option"
  Delete_r :: "go_error option"
  Release_r :: "go_error option"

datatype 'a outcome = Returns 'a | Panics | Blocks

section \<open>executeJob\<close>

fun stdoutReader :: "JobResult \<Rightarrow> stdout_ev list \<Rightarrow> event list \<times> JobResult option" where
  "stdoutReader result [] = ([], None)"
| "stdoutReader result (TickerC # es) =
     (case stdoutReader result es of (evs, r) \<Rightarrow> (Touch # evs, r))"
| "stdoutReader result (OutData d # es) =
     stdoutReader (result\<lparr>Stdout := Stdout result @ d\<rparr>) es"
| "stdoutReader result (OutClosed # es) = ([], Some result)"

fun waitLoop :: "JobResult \<Rightarrow> go_error option \<Rightarrow> wait_ev list
    \<Rightarrow> event list \<times> (JobResult \<times> go_error option) option" where
  "waitLoop result err [] = ([], None)"
| "waitLoop result err (WaitC wr # es) =
     ([TimerStop],
      Some (result\<lparr>ExitStatus := Status wr\<rparr>, if Err wr = None then Err wr else err))"
| "waitLoop result err (TimerC # es) =
     (case waitLoop (result\<lparr>TimedOut := True\<rparr>) err es of (evs, r) \<Rightarrow> (Terminate # evs, r))"

text \<open>
  \<open>time.NewTicker\<close> panics on a period that is not positive; the ticker is built before
  the error of \<open>TimeLeft\<close> is looked at.
\<close>

definition executeJob :: "Job \<Rightarrow> string \<Rightarrow> iter_env
    \<Rightarrow> event list \<times> (JobResult \<times> go_error option) outcome" where
  "executeJob job shellCmd env =
     (let result = \<lparr>Buried = False, Executed = True, ExitStatus = 0, JobId = Id_job job,
                     Stdout = [], TimedOut = False, Error = None\<rparr>;
          ttr = fst (TimeLeft_r env);
          err = snd (TimeLeft_r env)
      in if sint (ttr - ttrMargin) \<le> 0 then ([TimeLeft], Panics)
         else
           let pre1 = [TimeLeft, NewTicker (ttr - ttrMargin)]
           in if err \<noteq> None then (pre1, Returns (result, err))
              else
                (case NewCommand_r env of
                   Some e \<Rightarrow> (pre1 @ [NewCommand shellCmd], Returns (result, Some e))
                 | None \<Rightarrow>
                     (case Start_r env of
                        Some e \<Rightarrow>
                          (pre1 @ [NewCommand shellCmd, StartWithStdin (Body job)],
                           Returns (result, Some e))
                      | None \<Rightarrow>
                          (let pre2 = pre1 @ [NewCommand shellCmd, StartWithStdin (Body job)]
                           in case stdoutReader result (out_events env) of
                                (evs1, None) \<Rightarrow> (pre2 @ evs1, Blocks)
                              | (evs1, Some result1) \<Rightarrow>
                                  (let pre3 = pre2 @ evs1 @ [TickerStop, NewTimer ttrMargin]
                                   in case waitLoop result1 None (wait_events env) of
                                        (evs2, None) \<Rightarrow> (pre3 @ evs2, Blocks)
                                      | (evs2, Some rv) \<Rightarrow> (pre3 @ evs2, Returns rv))))))"

section \<open>handleResult\<close>

text \<open>
  \<open>time.Duration(r*r*r*r) * time.Second\<close>: the product of the count is taken in
  \<open>uint64\<close>, the product with \<open>time.Second\<close> in \<open>int64\<close>; both wrap.
\<close>

definition backoff :: "uint64 \<Rightarrow> Duration" where
  "backoff r = (r * r * r * r) * Second"

text \<open>
  In the \<open>default\<close> branch \<open>r, err := job.Releases()\<close> declares a new \<open>err\<close>: the
  result of \<open>job.Release\<close> goes to that inner variable, and the bare \<open>return\<close> after the
  switch returns the named result, still \<open>nil\<close>.
\<close>

definition handleResult :: "Job \<Rightarrow> JobResult \<Rightarrow> iter_env \<Rightarrow> event list \<times> go_error option" where
  "handleResult job result env =
     (if TimedOut result then ([], None)
      else if ExitStatus result = 0 then ([Delete], Delete_r env)
      else
        (let r0 = fst (Releases2_r env);
             err_inner = snd (Releases2_r env);
             r = (if err_inner \<noteq> None then ReleaseTries else r0);
             delay = backoff r;
             err_inner2 = Release_r env
         in ([Releases, Release delay], None)))"

section \<open>Broker.Run\<close>

datatype step = Continue | Panicked | Blocked

definition buried_result :: "Job \<Rightarrow> JobResult" where
  "buried_result job =
     \<lparr>Buried = True, Executed = False, ExitStatus = 0, JobId = Id_job job,
      Stdout = [], TimedOut = False, Error = None\<rparr>"

definition emit :: "Broker \<Rightarrow> JobResult \<Rightarrow> event list" where
  "emit b result = (if results b then [Emit result] else [])"

text \<open>The body of the loop from the reservation on (lines 114 to 167).\<close>

definition Run_body :: "Broker \<Rightarrow> iter_env \<Rightarrow> event list \<times> step" where
  "Run_body b env =
     (case reserve_r env of
        ReservePanic e \<Rightarrow> ([Reserve], Panicked)
      | ReserveTimeout \<Rightarrow> ([Reserve], Continue)
      | Reserved jid body \<Rightarrow>
          (let job = \<lparr>Id_job = jid, Body = body\<rparr>;
               t = fst (Timeouts_r env)
           in if snd (Timeouts_r env) \<noteq> None then ([Reserve, JobReceived, Timeouts], Panicked)
              else if TimeoutTries \<le> t
              then ([Reserve, JobReceived, Timeouts, Bury] @ emit b (buried_result job), Continue)
              else
                (let releases = fst (Releases_r env);
                     pre = [Reserve, JobReceived, Timeouts, Releases]
                 in if snd (Releases_r env) \<noteq> None then (pre, Panicked)
                    else if ReleaseTries \<le> releases
                    then (pre @ [Bury] @ emit b (buried_result job), Continue)
                    else
                      (case executeJob job (Cmd b) env of
                         (evs, Panics) \<Rightarrow> (pre @ evs, Panicked)
                       | (evs, Blocks) \<Rightarrow> (pre @ evs, Blocked)
                       | (evs, Returns (result, err)) \<Rightarrow>
                           (if err \<noteq> None then (pre @ evs, Panicked)
                            else
                              (case handleResult job result env of
                                 (hevs, Some e) \<Rightarrow> (pre @ evs @ hevs, Panicked)
                               | (hevs, None) \<Rightarrow>
                                   (pre @ evs @ hevs @ emit b result, Continue)))))))"

text \<open>
  The \<open>ticks\<close> argument: \<open>None\<close> is the nil channel; otherwise the receives it will
  answer, a list that runs out being a channel that blocks for ever.
\<close>

datatype tick_ev = TickVal bool | TickClosed

datatype tick_recv = Pass "tick_ev list option" | RecvClosed | RecvBlocked

fun recv_tick :: "tick_ev list option \<Rightarrow> tick_recv" where
  "recv_tick None = Pass None"
| "recv_tick (Some []) = RecvBlocked"
| "recv_tick (Some (TickClosed # ts)) = RecvClosed"
| "recv_tick (Some (TickVal v # ts)) = Pass (Some ts)"

datatype run_end = Finished | Crashed | Hung | ScriptEnd

text \<open>
  The reserve loop. \<open>cancelled\<close> is what \<open>isCancelled(b.ctx)\<close> answers at the top of
  the iteration; the list holds the answers of the outside world, one entry per
  iteration that gets past the cancellation check. \<open>ScriptEnd\<close> says that the loop
  wants another iteration and the list has none left.
\<close>

fun Run_loop :: "Broker \<Rightarrow> tick_ev list option \<Rightarrow> bool \<Rightarrow> iter_env list
    \<Rightarrow> event list \<times> run_end" where
  "Run_loop b ticks cancelled [] =
     (case recv_tick ticks of
        RecvClosed \<Rightarrow> ([], Finished)
      | RecvBlocked \<Rightarrow> ([], Hung)
      | Pass ticks' \<Rightarrow> if cancelled then ([], Finished) else ([], ScriptEnd))"
| "Run_loop b ticks cancelled (env # rest) =
     (case recv_tick ticks of
        RecvClosed \<Rightarrow> ([], Finished)
      | RecvBlocked \<Rightarrow> ([], Hung)
      | Pass ticks' \<Rightarrow>
          if cancelled then ([], Finished)
          else
            (case Run_body b env of
               (evs, Panicked) \<Rightarrow> (evs, Crashed)
             | (evs, Blocked) \<Rightarrow> (evs, Hung)
             | (evs, Continue) \<Rightarrow>
                 (case Run_loop b ticks' (cancelled \<or> cancel_fires env) rest of
                    (evs', e) \<Rightarrow> (evs @ evs', e))))"

definition Run :: "Broker \<Rightarrow> go_error option \<Rightarrow> tick_ev list option \<Rightarrow> bool \<Rightarrow> iter_env list
    \<Rightarrow> event list \<times> run_end" where
  "Run b dial_err ticks cancelled envs =
     (if dial_err \<noteq> None then ([], Crashed) else Run_loop b ticks cancelled envs)"

section \<open>Notions used in the statements\<close>

text \<open>
  The count \<open>r\<close> that the \<open>default\<close> branch of \<open>handleResult\<close> raises to the
  fourth power: the answer of \<open>job.Releases()\<close>, or \<open>ReleaseTries\<close> when the query
  came back with an error.
\<close>

definition released_count :: "iter_env \<Rightarrow> uint64" where
  "released_count env =
     (if snd (Releases2_r env) \<noteq> None then ReleaseTries else fst (Releases2_r env))"

text \<open>The policy check of the loop lets the job through to \<open>executeJob\<close>.\<close>

definition policy_passes :: "iter_env \<Rightarrow> bool" where
  "policy_passes env =
     (snd (Timeouts_r env) = None \<and> fst (Timeouts_r env) < TimeoutTries
      \<and> snd (Releases_r env) = None \<and> fst (Releases_r env) < ReleaseTries)"

text \<open>The calls that settle a reserved job on the server.\<close>

fun terminal :: "event \<Rightarrow> bool" where
  "terminal Delete = True"
| "terminal Bury = True"
| "terminal (Release d) = True"
| "terminal e = False"

text \<open>The result record \<open>executeJob\<close> starts from.\<close>

definition fresh_result :: "Job \<Rightarrow> JobResult" where
  "fresh_result job =
     \<lparr>Buried = False, Executed = True, ExitStatus = 0, JobId = Id_job job,
      Stdout = [], TimedOut = False, Error = None\<rparr>"

text \<open>
  The ticker period is positive, the time left was read, the command was built and the
  child was started: \<open>executeJob\<close> reaches its stdout loop.
\<close>

definition child_started :: "iter_env \<Rightarrow> bool" where
  "child_started env =
     (0 < sint (fst (TimeLeft_r env) - ttrMargin) \<and> snd (TimeLeft_r env) = None
      \<and> NewCommand_r env = None \<and> Start_r env = None)"

section \<open>The dispatcher: counting reservations\<close>

text \<open>
  \<open>limittedCountGenerator\<close> ranges over the channel of reservation tokens. The channel
  is the list of tokens it delivers; what the task does is the list of its receives and
  of its calls of \<open>cancel\<close>, in order. A second call of a \<open>context.CancelFunc\<close> has
  no effect, so the context is cancelled from the first \<open>CancelCalled\<close> on.
\<close>

datatype counter_ev = TokenReceived | CancelCalled

fun countLoop :: "uint64 \<Rightarrow> uint64 \<Rightarrow> unit list \<Rightarrow> counter_ev list" where
  "countLoop nlimit ngenerated [] = []"
| "countLoop nlimit ngenerated (tok # toks) =
     TokenReceived # (if nlimit \<noteq> 0 \<and> ngenerated = nlimit then [CancelCalled] else [])
       @ countLoop nlimit (ngenerated + 1) toks"

definition limittedCountGenerator :: "uint64 \<Rightarrow> unit list \<Rightarrow> counter_ev list" where
  "limittedCountGenerator nlimit eventHappened = countLoop nlimit 1 eventHappened"

section \<open>The dispatcher: running brokers\<close>

text \<open>
  The fields of \<open>BrokerDispatcher\<close> that \<open>RunTube\<close> and \<open>Wait\<close> touch. \<open>wg\<close> is
  the counter of the \<open>sync.WaitGroup\<close>; \<open>running\<close> lists the goroutines started by
  \<open>runBroker\<close> that have not returned yet, each by its tube and slot.
\<close>

record BrokerDispatcher =
  address :: string
  cmd :: string
  perTube :: "uint64"
  tubeSet :: "string \<rightharpoonup> bool"
  wg :: int
  running :: "(string \<times> uint64) list"

definition NewBrokerDispatcher :: "string \<Rightarrow> string \<Rightarrow> uint64 \<Rightarrow> uint64 \<Rightarrow> BrokerDispatcher" where
  "NewBrokerDispatcher address' cmd' perTube' maxJobs =
     \<lparr>address = address', cmd = cmd', perTube = perTube', tubeSet = Map.empty,
      wg = 0, running = []\<rparr>"

text \<open>\<open>runBroker\<close> adds one to the wait group and starts the goroutine of the broker.\<close>

definition runBroker :: "BrokerDispatcher \<Rightarrow> string \<Rightarrow> uint64 \<Rightarrow> BrokerDispatcher" where
  "runBroker bd tube slot = bd\<lparr>wg := wg bd + 1, running := running bd @ [(tube, slot)]\<rparr>"

text \<open>The loop of \<open>RunTube\<close>, \<open>for i := uint64(0); i < bd.perTube; i++\<close>.\<close>

function RunTube_loop :: "BrokerDispatcher \<Rightarrow> string \<Rightarrow> uint64 \<Rightarrow> BrokerDispatcher" where
  "RunTube_loop bd tube i =
     (if i < perTube bd then RunTube_loop (runBroker bd tube i) tube (i + 1) else bd)"
  by pat_completeness auto
termination
proof (relation "measure (\<lambda>(bd, tube, i). unat (perTube bd) - unat i)")
  show "wf (measure (\<lambda>(bd, tube, i). unat (perTube bd) - unat i))" by simp
next
  fix bd :: BrokerDispatcher and tube :: string and i :: "uint64"
  assume less: "i < perTube bd"
  then have l: "unat i < unat (perTube bd)" by (simp add: word_less_nat_alt)
  have "unat (perTube bd) < 2 ^ LENGTH(64)" by (rule unsigned_less)
  then have "unat i + unat (1 :: uint64) < 2 ^ LENGTH(64)" using l by simp
  then have "unat (i + 1) = unat i + unat (1 :: uint64)" by (simp only: unat_add_lem)
  then have "unat (i + 1) = Suc (unat i)" by simp
  then show "((runBroker bd tube i, tube, i + 1), (bd, tube, i))
      \<in> measure (\<lambda>(bd, tube, i). unat (perTube bd) - unat i)"
    using l by (simp add: runBroker_def)
qed

declare RunTube_loop.simps [simp del]

definition RunTube :: "BrokerDispatcher \<Rightarrow> string \<Rightarrow> BrokerDispatcher" where
  "RunTube bd tube = RunTube_loop (bd\<lparr>tubeSet := (tubeSet bd)(tube \<mapsto> True)\<rparr>) tube 0"

fun RunTubes :: "BrokerDispatcher \<Rightarrow> string list \<Rightarrow> BrokerDispatcher" where
  "RunTubes bd [] = bd"
| "RunTubes bd (tube # tubes) = RunTubes (RunTube bd tube) tubes"

text \<open>
  The goroutine of a broker returns from \<open>Run\<close>: its deferred \<open>wg.Done()\<close> takes one
  off the counter. \<open>Wait\<close> holds when \<open>wg.Wait()\<close> can return, that is when the
  counter is zero.
\<close>

definition broker_done :: "BrokerDispatcher \<Rightarrow> string \<times> uint64 \<Rightarrow> BrokerDispatcher" where
  "broker_done bd br =
     (if br \<in> set (running bd)
      then bd\<lparr>wg := wg bd - 1, running := remove1 br (running bd)\<rparr> else bd)"

definition Wait :: "BrokerDispatcher \<Rightarrow> bool" where
  "Wait bd = (wg bd = 0)"

text \<open>A history of the dispatcher: calls of \<open>RunTube\<close> and brokers returning.\<close>

datatype dispatcher_step = CallRunTube string | BrokerReturns "string \<times> uint64"

fun dispatcher_run :: "BrokerDispatcher \<Rightarrow> dispatcher_step list \<Rightarrow> BrokerDispatcher" where
  "dispatcher_run bd [] = bd"
| "dispatcher_run bd (CallRunTube tube # steps) = dispatcher_run (RunTube bd tube) steps"
| "dispatcher_run bd (BrokerReturns br # steps) = dispatcher_run (broker_done bd br) steps"

text \<open>The brokers of one tube, one per slot index below \<open>k\<close>.\<close>

definition slots :: "string \<Rightarrow> uint64 \<Rightarrow> (string \<times> uint64) list" where
  "slots tube k = map (\<lambda>i. (tube, word_of_nat i)) [0..<unat k]"

section \<open>A job on the server\<close>

text \<open>
  Modelled from the spec: the job record of the beanstalkd server and the stats that
  package \<open>bs\<close> reads from it; neither the server nor \<open>bs\<close> is among the source
  files. By section 3 of the spec \<open>releases\<close> is the number of earlier explicit
  releases and \<open>timeouts\<close> the number of earlier expiries of the time to run; by the
  glossary a release returns the job to the ready set, and bury and delete take it out.
\<close>

datatype job_state = Ready | BuriedJob | DeletedJob

record server_job =
  sj_id :: uint64
  sj_body :: bytes
  sj_releases :: uint64
  sj_timeouts :: uint64
  sj_time_left :: Duration
  sj_state :: job_state

text \<open>
  Modelled from the spec: what the calls of one iteration answer for this job when no
  call fails, the command starts, and the child closes its stdout and exits with the
  wait result \<open>wr\<close> before the kill timer.
\<close>

definition answers :: "server_job \<Rightarrow> WaitResult \<Rightarrow> iter_env" where
  "answers sj wr =
     \<lparr>cancel_fires = False, reserve_r = Reserved (sj_id sj) (sj_body sj),
      Timeouts_r = (sj_timeouts sj, None), Releases_r = (sj_releases sj, None),
      TimeLeft_r = (sj_time_left sj, None), NewCommand_r = None, Start_r = None,
      out_events = [OutClosed], wait_events = [WaitC wr],
      Releases2_r = (sj_releases sj, None), Delete_r = None, Release_r = None\<rparr>"

text \<open>Modelled from the spec: what a call of the broker does to the job on the server.\<close>

fun server_apply :: "event \<Rightarrow> server_job \<Rightarrow> server_job" where
  "server_apply (Release d) sj = sj\<lparr>sj_releases := sj_releases sj + 1\<rparr>"
| "server_apply Bury sj = sj\<lparr>sj_state := BuriedJob\<rparr>"
| "server_apply Delete sj = sj\<lparr>sj_state := DeletedJob\<rparr>"
| "server_apply e sj = sj"

text \<open>
  The loop body of the broker run on the job again and again, as long as the job is
  ready, for at most the given number of reservations.
\<close>

fun retry :: "nat \<Rightarrow> Broker \<Rightarrow> WaitResult \<Rightarrow> server_job \<Rightarrow> event list" where
  "retry 0 b wr sj = []"
| "retry (Suc n) b wr sj =
     (if sj_state sj \<noteq> Ready then []
      else (case Run_body b (answers sj wr) of
              (evs, st) \<Rightarrow> evs @ retry n b wr (fold server_apply evs sj)))"

text \<open>The delays of the releases in a trace, in order.\<close>

fun release_delays :: "event list \<Rightarrow> Duration list" where
  "release_delays [] = []"
| "release_delays (Release d # evs) = d # release_delays evs"
| "release_delays (e # evs) = release_delays evs"

text \<open>A job that was never released and never timed out.\<close>

definition new_job :: "uint64 \<Rightarrow> bytes \<Rightarrow> Duration \<Rightarrow> server_job" where
  "new_job jid body ttr =
     \<lparr>sj_id = jid, sj_body = body, sj_releases = 0, sj_timeouts = 0, sj_time_left = ttr,
      sj_state = Ready\<rparr>"

section \<open>Sample inputs\<close>

text \<open>
  Concrete inputs at which the theorems below are instantiated: job 7 with a one-byte
  body, five seconds left, two earlier releases, a child that prints two bytes and exits
  with status 1.
\<close>

definition sample_job :: Job where
  "sample_job = \<lparr>Id_job = 7, Body = [120]\<rparr>"

definition sample_env :: iter_env where
  "sample_env =
     \<lparr>cancel_fires = False, reserve_r = Reserved 7 [120],
      Timeouts_r = (0, None), Releases_r = (2, None), TimeLeft_r = (5 * Second, None),
      NewCommand_r = None, Start_r = None,
      out_events = [OutData [104, 105], OutClosed],
      wait_events = [WaitC \<lparr>Status = 1, Err = None\<rparr>],
      Releases2_r = (2, None), Delete_r = None, Release_r = None\<rparr>"

definition sample_result :: "int \<Rightarrow> bool \<Rightarrow> JobResult" where
  "sample_result st tmo =
     \<lparr>Buried = False, Executed = True, ExitStatus = st, JobId = 7, Stdout = [104, 105],
      TimedOut = tmo, Error = None\<rparr>"

text \<open>A broker with a results channel, and one as the dispatcher builds them, without.\<close>

definition sample_broker :: Broker where
  "sample_broker = \<lparr>Address = ''127.0.0.1:11300'', Cmd = ''cat'', Tube = ''default'', results = True\<rparr>"

definition dispatched_broker :: Broker where
  "dispatched_broker = \<lparr>Address = ''127.0.0.1:11300'', Cmd = ''cat'', Tube = ''default'', results = False\<rparr>"

text \<open>
  The sample iteration with a failing releases query and a failing release, and with a
  child that exits with status 0 and a failing delete.
\<close>

definition failing_release_env :: iter_env where
  "failing_release_env =
     sample_env\<lparr>Releases2_r := (0, Some (GoError ''stats-job failed'')),
                Release_r := Some (GoError ''release failed'')\<rparr>"

definition failing_delete_env :: iter_env where
  "failing_delete_env =
     sample_env\<lparr>wait_events := [WaitC \<lparr>Status = 0, Err = None\<rparr>],
                Delete_r := Some (GoError ''delete failed'')\<rparr>"

text \<open>The sample iteration with a child that outlives the kill timer.\<close>

definition hung_child_env :: iter_env where
  "hung_child_env =
     sample_env\<lparr>wait_events := [TimerC, WaitC \<lparr>Status = - 1, Err = None\<rparr>]\<rparr>"

text \<open>A dispatcher with two brokers per tube and no job limit.\<close>

definition sample_dispatcher :: BrokerDispatcher where
  "sample_dispatcher = NewBrokerDispatcher ''127.0.0.1:11300'' ''cat'' 2 0"

section \<open>Arithmetic of the release delay\<close>

lemma pow4_le: "(n::nat) \<le> 309 \<Longrightarrow> n * n * n * n \<le> 9116621361"
proof -
  assume h: "n \<le> 309"
  have a: "n * n \<le> 309 * 309" using h h by (rule mult_le_mono)
  have b: "n * n * n \<le> 309 * 309 * 309" using a h by (rule mult_le_mono)
  have "n * n * n * n \<le> 309 * 309 * 309 * 309" using b h by (rule mult_le_mono)
  then show ?thesis by simp
qed

lemma sint_word_of_nat_small:
  assumes "n < 2 ^ 63"
  shows "sint (word_of_nat n :: 64 word) = int n"
proof -
  have "int n < 2 ^ 63" using assms by (metis of_nat_less_iff of_nat_numeral of_nat_power)
  moreover have "- (2 ^ 63) \<le> int n" by simp
  ultimately have "signed_take_bit 63 (int n) = int n"
    by (rule signed_take_bit_int_eq_self[rotated])
  then show ?thesis by (simp add: signed_of_nat)
qed

lemma backoff_seconds:
  assumes "unat r \<le> 309"
  shows "sint (backoff r) = int (unat r ^ 4) * 1000000000"
proof -
  let ?n = "unat r"
  have le: "?n * ?n * ?n * ?n \<le> 9116621361" using assms by (rule pow4_le)
  have eq: "backoff r = word_of_nat (?n * ?n * ?n * ?n * 1000000000)"
    by (simp add: backoff_def Second_def)
  have bound: "?n * ?n * ?n * ?n * 1000000000 < 2 ^ 63" using le by simp
  show ?thesis unfolding eq sint_word_of_nat_small[OF bound] 
    by (simp add: power4_eq_xxxx)
qed

section \<open>Result resolution\<close>

text \<open>
  Claim C1, as amended. For an execution that completed without timing out,
  \<open>handleResult\<close> deletes the job when the exit status is 0. On any other status it
  queries the releases count, takes \<open>r\<close> to be the answer (or \<open>ReleaseTries = 10\<close> when
  the query failed) and releases the job with the delay \<open>backoff r\<close>, the product
  \<open>r * r * r * r\<close> times one second in wrapping 64-bit arithmetic. That delay is \<open>r\<close>
  to the fourth power in seconds for every \<open>r\<close> up to 309, in particular whenever the job
  passed the policy check and the query of \<open>handleResult\<close> fails or answers the count the
  policy check read.
\<close>

theorem handleResult_delete_or_release:
  assumes "\<not> TimedOut result"
  shows "(ExitStatus result = 0 \<longrightarrow> fst (handleResult job result env) = [Delete])
       \<and> (ExitStatus result \<noteq> 0 \<longrightarrow>
            fst (handleResult job result env) = [Releases, Release (backoff (released_count env))]
            \<and> (snd (Releases2_r env) = None \<longrightarrow> released_count env = fst (Releases2_r env))
            \<and> (snd (Releases2_r env) \<noteq> None \<longrightarrow> released_count env = 10)
            \<and> (unat (released_count env) \<le> 309 \<longrightarrow>
                 sint (backoff (released_count env))
                 = int (unat (released_count env) ^ 4) * sint Second)
            \<and> (policy_passes env
                \<and> (snd (Releases2_r env) \<noteq> None \<or> fst (Releases2_r env) = fst (Releases_r env))
                \<longrightarrow> sint (backoff (released_count env))
                    = int (unat (released_count env) ^ 4) * sint Second))"
proof -
  have s: "sint Second = 1000000000" by (simp add: Second_def)
  have p: "sint (backoff (released_count env))
      = int (unat (released_count env) ^ 4) * sint Second"
    if h: "policy_passes env"
      "snd (Releases2_r env) \<noteq> None \<or> fst (Releases2_r env) = fst (Releases_r env)"
  proof -
    have "fst (Releases_r env) < 10" using h(1) by (simp add: policy_passes_def ReleaseTries_def)
    then have "unat (fst (Releases_r env)) < 10" by (simp add: word_less_nat_alt)
    then have "unat (released_count env) \<le> 309"
      using h(2) by (auto simp: released_count_def ReleaseTries_def)
    then show ?thesis unfolding s by (rule backoff_seconds)
  qed
  have q: "fst (handleResult job result env) = [Delete]" if "ExitStatus result = 0"
    using assms that by (simp add: handleResult_def)
  have r: "fst (handleResult job result env) = [Releases, Release (backoff (released_count env))]"
    if "ExitStatus result \<noteq> 0"
    using assms that by (simp add: handleResult_def released_count_def Let_def)
  have c: "snd (Releases2_r env) = None \<Longrightarrow> released_count env = fst (Releases2_r env)"
    "snd (Releases2_r env) \<noteq> None \<Longrightarrow> released_count env = 10"
    by (simp_all add: released_count_def ReleaseTries_def)
  have b: "unat (released_count env) \<le> 309 \<Longrightarrow>
      sint (backoff (released_count env)) = int (unat (released_count env) ^ 4) * sint Second"
    unfolding s by (rule backoff_seconds)
  show ?thesis using p q r c b by blast
qed

theorem handleResult_delete_or_release_witness:
  "\<not> TimedOut (sample_result 0 False)
   \<and> fst (handleResult sample_job (sample_result 0 False) sample_env) = [Delete]
   \<and> \<not> TimedOut (sample_result 1 False)
   \<and> unat (released_count sample_env) \<le> 309
   \<and> policy_passes sample_env
   \<and> fst (Releases2_r sample_env) = fst (Releases_r sample_env)
   \<and> fst (handleResult sample_job (sample_result 1 False) sample_env)
       = [Releases, Release (16 * Second)]
   \<and> sint (backoff (released_count sample_env)) = 16 * sint Second"
proof -
  have a: "\<not> TimedOut (sample_result 0 False)" by (simp add: sample_result_def)
  have b: "\<not> TimedOut (sample_result 1 False)" by (simp add: sample_result_def)
  have c: "unat (released_count sample_env) \<le> 309"
    by (simp add: released_count_def sample_env_def)
  have d: "backoff (released_count sample_env) = 16 * Second"
    by (simp add: released_count_def sample_env_def backoff_def)
  have e: "ExitStatus (sample_result 0 False) = 0" "ExitStatus (sample_result 1 False) \<noteq> 0"
    by (simp_all add: sample_result_def)
  have f: "int (unat (released_count sample_env) ^ 4) = 16"
    by (simp add: released_count_def sample_env_def)
  have g: "policy_passes sample_env" "fst (Releases2_r sample_env) = fst (Releases_r sample_env)"
    by (simp_all add: policy_passes_def sample_env_def TimeoutTries_def ReleaseTries_def)
  show ?thesis
    using handleResult_delete_or_release [OF a, of sample_job sample_env]
      handleResult_delete_or_release [OF b, of sample_job sample_env] a b c d e f g
    by simp
qed

text \<open>
  A job that passed the policy check with two releases and whose second query answers
  310: the fourth power still fits 64 bits, the product with \<open>time.Second\<close> does not,
  and the job is released with a negative delay instead of \<open>310 ^ 4\<close> seconds.
\<close>

theorem release_delay_overflow:
  "policy_passes (sample_env\<lparr>Releases2_r := (310, None)\<rparr>)
   \<and> \<not> TimedOut (sample_result 1 False)
   \<and> ExitStatus (sample_result 1 False) \<noteq> 0
   \<and> handleResult sample_job (sample_result 1 False) (sample_env\<lparr>Releases2_r := (310, None)\<rparr>)
       = ([Releases, Release (backoff 310)], None)
   \<and> Run_body dispatched_broker (sample_env\<lparr>Releases2_r := (310, None)\<rparr>) =
       ([Reserve, JobReceived, Timeouts, Releases, TimeLeft, NewTicker (4 * Second),
         NewCommand ''cat'', StartWithStdin [120], TickerStop, NewTimer ttrMargin, TimerStop,
         Releases, Release (backoff 310)], Continue)
   \<and> sint (backoff 310) = - 9211534073709551616
   \<and> sint (backoff 310) \<noteq> int (310 ^ 4) * sint Second"
proof -
  have a: "policy_passes (sample_env\<lparr>Releases2_r := (310, None)\<rparr>)"
    by (simp add: policy_passes_def sample_env_def TimeoutTries_def ReleaseTries_def)
  have b: "\<not> TimedOut (sample_result 1 False)" "ExitStatus (sample_result 1 False) \<noteq> 0"
    by (simp_all add: sample_result_def)
  have c: "handleResult sample_job (sample_result 1 False)
      (sample_env\<lparr>Releases2_r := (310, None)\<rparr>) = ([Releases, Release (backoff 310)], None)"
    by (simp add: handleResult_def sample_result_def sample_env_def Let_def)
  have d: "Run_body dispatched_broker (sample_env\<lparr>Releases2_r := (310, None)\<rparr>) =
       ([Reserve, JobReceived, Timeouts, Releases, TimeLeft, NewTicker (4 * Second),
         NewCommand ''cat'', StartWithStdin [120], TickerStop, NewTimer ttrMargin, TimerStop,
         Releases, Release (backoff 310)], Continue)"
    by (simp add: Run_body_def executeJob_def handleResult_def Let_def emit_def
        dispatched_broker_def sample_env_def Second_def ttrMargin_def TimeoutTries_def
        ReleaseTries_def)
  have e: "sint (backoff 310) = - 9211534073709551616"
    by (simp add: backoff_def Second_def)
  have f: "sint (backoff 310) \<noteq> int (310 ^ 4) * sint Second"
    unfolding e by (simp add: Second_def)
  show ?thesis using a b c d e f by simp
qed

section \<open>The loop body\<close>

lemma Run_body_executed:
  assumes "reserve_r env = Reserved jid body" and "policy_passes env"
    and "executeJob \<lparr>Id_job = jid, Body = body\<rparr> (Cmd b) env = (evs, Returns (result, None))"
  shows "Run_body b env =
     (case handleResult \<lparr>Id_job = jid, Body = body\<rparr> result env of
        (hevs, Some e) \<Rightarrow> ([Reserve, JobReceived, Timeouts, Releases] @ evs @ hevs, Panicked)
      | (hevs, None) \<Rightarrow>
          ([Reserve, JobReceived, Timeouts, Releases] @ evs @ hevs @ emit b result, Continue))"
  using assms
  by (simp add: Run_body_def policy_passes_def Let_def not_le [symmetric] split: prod.splits option.splits)

text \<open>
  Claim C10. On the non-zero branch \<open>handleResult\<close> returns \<open>nil\<close> whatever the
  releases query and the release call answer, because both errors live in a variable
  declared inside the branch; the loop therefore goes on to the next iteration and never
  reaches its panic for a failed release. On the zero branch the error of the delete is
  the returned error, and the loop panics exactly when the delete failed.
\<close>

theorem release_error_is_dropped:
  assumes "reserve_r env = Reserved jid body" and "policy_passes env"
    and "executeJob \<lparr>Id_job = jid, Body = body\<rparr> (Cmd b) env = (evs, Returns (result, None))"
    and "\<not> TimedOut result"
  shows "(ExitStatus result \<noteq> 0 \<longrightarrow>
            snd (handleResult \<lparr>Id_job = jid, Body = body\<rparr> result env) = None
            \<and> snd (Run_body b env) = Continue)
       \<and> (ExitStatus result = 0 \<longrightarrow>
            snd (handleResult \<lparr>Id_job = jid, Body = body\<rparr> result env) = Delete_r env
            \<and> (snd (Run_body b env) = Panicked \<longleftrightarrow> Delete_r env \<noteq> None))"
proof -
  note rb = Run_body_executed [OF assms(1-3)]
  show ?thesis
    using assms(4) unfolding rb
    by (auto simp: handleResult_def Let_def split: option.splits)
qed

lemma failing_release_execute:
  "executeJob \<lparr>Id_job = 7, Body = [120]\<rparr> (Cmd sample_broker) failing_release_env =
     ([TimeLeft, NewTicker (4 * Second), NewCommand ''cat'', StartWithStdin [120],
       TickerStop, NewTimer ttrMargin, TimerStop], Returns (sample_result 1 False, None))"
  by (simp add: executeJob_def failing_release_env_def sample_env_def sample_result_def
      sample_broker_def Second_def ttrMargin_def)

lemma failing_delete_execute:
  "executeJob \<lparr>Id_job = 7, Body = [120]\<rparr> (Cmd sample_broker) failing_delete_env =
     ([TimeLeft, NewTicker (4 * Second), NewCommand ''cat'', StartWithStdin [120],
       TickerStop, NewTimer ttrMargin, TimerStop], Returns (sample_result 0 False, None))"
  by (simp add: executeJob_def failing_delete_env_def sample_env_def sample_result_def
      sample_broker_def Second_def ttrMargin_def)

theorem release_error_is_dropped_witness:
  "Release_r failing_release_env \<noteq> None
   \<and> snd (Releases2_r failing_release_env) \<noteq> None
   \<and> snd (handleResult \<lparr>Id_job = 7, Body = [120]\<rparr> (sample_result 1 False) failing_release_env)
       = None
   \<and> snd (Run_body sample_broker failing_release_env) = Continue
   \<and> Delete_r failing_delete_env \<noteq> None
   \<and> snd (Run_body sample_broker failing_delete_env) = Panicked"
proof -
  have r1: "reserve_r failing_release_env = Reserved 7 [120]"
    by (simp add: failing_release_env_def sample_env_def)
  have p1: "policy_passes failing_release_env"
    by (simp add: policy_passes_def failing_release_env_def sample_env_def
        TimeoutTries_def ReleaseTries_def)
  have t1: "\<not> TimedOut (sample_result 1 False)" "ExitStatus (sample_result 1 False) \<noteq> 0"
    by (simp_all add: sample_result_def)
  have r2: "reserve_r failing_delete_env = Reserved 7 [120]"
    by (simp add: failing_delete_env_def sample_env_def)
  have p2: "policy_passes failing_delete_env"
    by (simp add: policy_passes_def failing_delete_env_def sample_env_def
        TimeoutTries_def ReleaseTries_def)
  have t2: "\<not> TimedOut (sample_result 0 False)" "ExitStatus (sample_result 0 False) = 0"
    by (simp_all add: sample_result_def)
  have e: "Release_r failing_release_env \<noteq> None" "snd (Releases2_r failing_release_env) \<noteq> None"
    "Delete_r failing_delete_env \<noteq> None"
    by (simp_all add: failing_release_env_def failing_delete_env_def sample_env_def)
  show ?thesis
    using release_error_is_dropped [OF r1 p1 failing_release_execute t1(1)]
      release_error_is_dropped [OF r2 p2 failing_delete_execute t2(1)] t1 t2 e
    by simp
qed

text \<open>
  Claim C2, as amended. For a reserved job whose timeouts query succeeded: with
  \<open>timeouts \<ge> TimeoutTries = 1\<close> the iteration signals the reservation, reads the
  timeouts, buries the job and goes on; with fewer timeouts it reads the releases, and with
  \<open>releases \<ge> ReleaseTries = 10\<close> it buries and goes on. In both cases the result
  with \<open>Buried\<close> set and \<open>Executed\<close> clear is sent only when the broker has a results
  channel, and no command is built or started.
\<close>

theorem policy_bury:
  assumes "reserve_r env = Reserved jid body" and "snd (Timeouts_r env) = None"
  shows "(TimeoutTries \<le> fst (Timeouts_r env) \<longrightarrow>
            Run_body b env =
              ([Reserve, JobReceived, Timeouts, Bury]
               @ (if results b then [Emit (buried_result \<lparr>Id_job = jid, Body = body\<rparr>)] else []),
               Continue))
       \<and> (fst (Timeouts_r env) < TimeoutTries \<and> snd (Releases_r env) = None
           \<and> ReleaseTries \<le> fst (Releases_r env) \<longrightarrow>
            Run_body b env =
              ([Reserve, JobReceived, Timeouts, Releases, Bury]
               @ (if results b then [Emit (buried_result \<lparr>Id_job = jid, Body = body\<rparr>)] else []),
               Continue))
       \<and> (TimeoutTries \<le> fst (Timeouts_r env)
           \<or> snd (Releases_r env) = None \<and> ReleaseTries \<le> fst (Releases_r env) \<longrightarrow>
            (\<forall>c. NewCommand c \<notin> set (fst (Run_body b env)))
            \<and> (\<forall>d. StartWithStdin d \<notin> set (fst (Run_body b env))))
       \<and> Buried (buried_result \<lparr>Id_job = jid, Body = body\<rparr>)
       \<and> \<not> Executed (buried_result \<lparr>Id_job = jid, Body = body\<rparr>)
       \<and> JobId (buried_result \<lparr>Id_job = jid, Body = body\<rparr>) = jid
       \<and> TimeoutTries = 1 \<and> ReleaseTries = 10"
  using assms
  by (auto simp: Run_body_def Let_def emit_def buried_result_def TimeoutTries_def ReleaseTries_def)

text \<open>
  A broker without a results channel (every broker of the dispatcher) buries the job and
  emits nothing.
\<close>

theorem bury_without_sink:
  "Run_body dispatched_broker (sample_env\<lparr>Timeouts_r := (1, None)\<rparr>)
     = ([Reserve, JobReceived, Timeouts, Bury], Continue)
   \<and> Emit (buried_result sample_job)
       \<notin> set (fst (Run_body dispatched_broker (sample_env\<lparr>Timeouts_r := (1, None)\<rparr>)))
   \<and> Run_body dispatched_broker (sample_env\<lparr>Releases_r := (10, None)\<rparr>)
     = ([Reserve, JobReceived, Timeouts, Releases, Bury], Continue)"
  by (simp add: Run_body_def Let_def emit_def dispatched_broker_def sample_env_def
      TimeoutTries_def ReleaseTries_def)

theorem policy_bury_witness:
  "Run_body sample_broker (sample_env\<lparr>Timeouts_r := (1, None)\<rparr>)
     = ([Reserve, JobReceived, Timeouts, Bury, Emit (buried_result sample_job)], Continue)
   \<and> Run_body sample_broker (sample_env\<lparr>Releases_r := (10, None)\<rparr>)
     = ([Reserve, JobReceived, Timeouts, Releases, Bury, Emit (buried_result sample_job)], Continue)
   \<and> Run_body dispatched_broker (sample_env\<lparr>Releases_r := (12, None)\<rparr>)
     = ([Reserve, JobReceived, Timeouts, Releases, Bury], Continue)"
proof -
  have a: "reserve_r (sample_env\<lparr>Timeouts_r := (1, None)\<rparr>) = Reserved 7 [120]"
    "snd (Timeouts_r (sample_env\<lparr>Timeouts_r := (1, None)\<rparr>)) = None"
    "TimeoutTries \<le> fst (Timeouts_r (sample_env\<lparr>Timeouts_r := (1, None)\<rparr>))"
    by (simp_all add: sample_env_def TimeoutTries_def)
  have b: "reserve_r (sample_env\<lparr>Releases_r := (10, None)\<rparr>) = Reserved 7 [120]"
    "snd (Timeouts_r (sample_env\<lparr>Releases_r := (10, None)\<rparr>)) = None"
    "fst (Timeouts_r (sample_env\<lparr>Releases_r := (10, None)\<rparr>)) < TimeoutTries"
    "snd (Releases_r (sample_env\<lparr>Releases_r := (10, None)\<rparr>)) = None"
    "ReleaseTries \<le> fst (Releases_r (sample_env\<lparr>Releases_r := (10, None)\<rparr>))"
    by (simp_all add: sample_env_def TimeoutTries_def ReleaseTries_def)
  have c: "reserve_r (sample_env\<lparr>Releases_r := (12, None)\<rparr>) = Reserved 7 [120]"
    "snd (Timeouts_r (sample_env\<lparr>Releases_r := (12, None)\<rparr>)) = None"
    "fst (Timeouts_r (sample_env\<lparr>Releases_r := (12, None)\<rparr>)) < TimeoutTries"
    "snd (Releases_r (sample_env\<lparr>Releases_r := (12, None)\<rparr>)) = None"
    "ReleaseTries \<le> fst (Releases_r (sample_env\<lparr>Releases_r := (12, None)\<rparr>))"
    by (simp_all add: sample_env_def TimeoutTries_def ReleaseTries_def)
  have s: "results sample_broker" "\<not> results dispatched_broker"
    "\<lparr>Id_job = 7, Body = [120]\<rparr> = sample_job"
    by (simp_all add: sample_broker_def dispatched_broker_def sample_job_def)
  show ?thesis
    using policy_bury [OF a(1) a(2), of sample_broker]
      policy_bury [OF b(1) b(2), of sample_broker]
      policy_bury [OF c(1) c(2), of dispatched_broker] a b c s
    by simp
qed

section \<open>The two loops of executeJob\<close>

lemma stdoutReader_events:
  "stdoutReader r es = (evs, x) \<Longrightarrow> e \<in> set evs \<Longrightarrow> e = Touch"
  by (induction r es arbitrary: evs x rule: stdoutReader.induct) (auto split: prod.splits)

lemma stdoutReader_TimedOut:
  "stdoutReader r es = (evs, Some r') \<Longrightarrow> TimedOut r' = TimedOut r"
  by (induction r es arbitrary: evs rule: stdoutReader.induct) (auto split: prod.splits)

lemma waitLoop_events:
  "waitLoop r err es = (evs, x) \<Longrightarrow> e \<in> set evs
   \<Longrightarrow> e = TimerStop \<or> (e = Terminate \<and> TimerC \<in> set es)"
  by (induction r err es arbitrary: evs x rule: waitLoop.induct) (auto split: prod.splits)

lemma waitLoop_timer_fires:
  "waitLoop r err (replicate (Suc n) TimerC @ es) =
     (case waitLoop (r\<lparr>TimedOut := True\<rparr>) err es of
        (evs, x) \<Rightarrow> (replicate (Suc n) Terminate @ evs, x))"
proof (induction n arbitrary: r)
  case 0
  show ?case by (simp split: prod.splits)
next
  case (Suc n)
  have "waitLoop r err (replicate (Suc (Suc n)) TimerC @ es) =
      (case waitLoop (r\<lparr>TimedOut := True\<rparr>) err (replicate (Suc n) TimerC @ es) of
         (evs, x) \<Rightarrow> (Terminate # evs, x))"
    by simp
  also have "\<dots> = (case waitLoop (r\<lparr>TimedOut := True\<rparr>) err es of
        (evs, x) \<Rightarrow> (replicate (Suc (Suc n)) Terminate @ evs, x))"
    unfolding Suc.IH [of "r\<lparr>TimedOut := True\<rparr>"] by (simp split: prod.splits)
  finally show ?case .
qed

lemma waitLoop_only_timer:
  "waitLoop r err (replicate n TimerC) = (replicate n Terminate, None)"
  by (induction n arbitrary: r) simp_all

lemma executeJob_events:
  assumes "e \<in> set (fst (executeJob job c env))"
  shows "\<not> terminal e \<and> (\<forall>r. e \<noteq> Emit r) \<and> e \<noteq> Reserve
       \<and> (e = Terminate \<longrightarrow> TimerC \<in> set (wait_events env))"
  using assms
  by (auto simp: executeJob_def Let_def split: if_splits option.splits prod.splits
      dest: stdoutReader_events waitLoop_events)

text \<open>
  Claim C4. Once the stdout loop has ended, \<open>executeJob\<close> stops the ticker, arms a
  timer of \<open>ttrMargin\<close> (one second) and selects between the completion event and the
  timer. When the completion event comes first, the timer is stopped, the exit status is
  recorded and the result has \<open>TimedOut\<close> clear (it was never set). When the timer fires
  first, the child is terminated, \<open>TimedOut\<close> is set and the loop goes on selecting:
  the completion event then ends it with the status recorded and \<open>TimedOut\<close> still set,
  and without a completion event the call does not return.
\<close>

theorem wait_phase_race:
  assumes "child_started env"
    and "stdoutReader (fresh_result job) (out_events env) = (evs1, Some result1)"
  shows "(wait_events env = WaitC wr # es \<longrightarrow>
            executeJob job c env =
              ([TimeLeft, NewTicker (fst (TimeLeft_r env) - ttrMargin), NewCommand c,
                StartWithStdin (Body job)] @ evs1 @ [TickerStop, NewTimer ttrMargin, TimerStop],
               Returns (result1\<lparr>ExitStatus := Status wr\<rparr>, None))
            \<and> \<not> TimedOut (result1\<lparr>ExitStatus := Status wr\<rparr>))
       \<and> (wait_events env = replicate (Suc n) TimerC @ WaitC wr # es \<longrightarrow>
            executeJob job c env =
              ([TimeLeft, NewTicker (fst (TimeLeft_r env) - ttrMargin), NewCommand c,
                StartWithStdin (Body job)] @ evs1 @ [TickerStop, NewTimer ttrMargin]
               @ replicate (Suc n) Terminate @ [TimerStop],
               Returns (result1\<lparr>TimedOut := True, ExitStatus := Status wr\<rparr>, None)))
       \<and> (wait_events env = replicate n TimerC \<longrightarrow>
            executeJob job c env =
              ([TimeLeft, NewTicker (fst (TimeLeft_r env) - ttrMargin), NewCommand c,
                StartWithStdin (Body job)] @ evs1 @ [TickerStop, NewTimer ttrMargin]
               @ replicate n Terminate,
               Blocks))
       \<and> sint ttrMargin = 1000000000"
proof -
  have t: "\<not> TimedOut result1"
    using stdoutReader_TimedOut [OF assms(2)] by (simp add: fresh_result_def)
  have pre: "\<not> sint (fst (TimeLeft_r env) - ttrMargin) \<le> 0" "snd (TimeLeft_r env) = None"
    "NewCommand_r env = None" "Start_r env = None"
    using assms(1) by (simp_all add: child_started_def)
  have sr: "stdoutReader \<lparr>Buried = False, Executed = True, ExitStatus = 0, JobId = Id_job job,
      Stdout = [], TimedOut = False, Error = None\<rparr> (out_events env) = (evs1, Some result1)"
    using assms(2) by (simp add: fresh_result_def)
  have a: "wait_events env = WaitC wr # es \<Longrightarrow>
      executeJob job c env =
        ([TimeLeft, NewTicker (fst (TimeLeft_r env) - ttrMargin), NewCommand c,
          StartWithStdin (Body job)] @ evs1 @ [TickerStop, NewTimer ttrMargin, TimerStop],
         Returns (result1\<lparr>ExitStatus := Status wr\<rparr>, None))"
    using pre sr by (simp add: executeJob_def Let_def)
  have b: "wait_events env = replicate (Suc n) TimerC @ WaitC wr # es \<Longrightarrow>
      executeJob job c env =
        ([TimeLeft, NewTicker (fst (TimeLeft_r env) - ttrMargin), NewCommand c,
          StartWithStdin (Body job)] @ evs1 @ [TickerStop, NewTimer ttrMargin]
         @ replicate (Suc n) Terminate @ [TimerStop],
         Returns (result1\<lparr>TimedOut := True, ExitStatus := Status wr\<rparr>, None))"
    using pre sr waitLoop_timer_fires [of result1 None n "WaitC wr # es"]
    by (simp add: executeJob_def Let_def)
  have c: "wait_events env = replicate n TimerC \<Longrightarrow>
      executeJob job c env =
        ([TimeLeft, NewTicker (fst (TimeLeft_r env) - ttrMargin), NewCommand c,
          StartWithStdin (Body job)] @ evs1 @ [TickerStop, NewTimer ttrMargin]
         @ replicate n Terminate, Blocks)"
    using pre sr waitLoop_only_timer [of result1 None n]
    by (simp add: executeJob_def Let_def)
  have d: "sint ttrMargin = 1000000000" by (simp add: ttrMargin_def Second_def)
  show ?thesis using a b c d t by simp
qed

theorem wait_phase_race_witness:
  "child_started sample_env
   \<and> executeJob sample_job ''cat'' sample_env =
       ([TimeLeft, NewTicker (4 * Second), NewCommand ''cat'', StartWithStdin [120],
         TickerStop, NewTimer ttrMargin, TimerStop],
        Returns (sample_result 1 False, None))
   \<and> child_started hung_child_env
   \<and> executeJob sample_job ''cat'' hung_child_env =
       ([TimeLeft, NewTicker (4 * Second), NewCommand ''cat'', StartWithStdin [120],
         TickerStop, NewTimer ttrMargin, Terminate, TimerStop],
        Returns (sample_result (- 1) True, None))
   \<and> executeJob sample_job ''cat'' (sample_env\<lparr>wait_events := [TimerC]\<rparr>) =
       ([TimeLeft, NewTicker (4 * Second), NewCommand ''cat'', StartWithStdin [120],
         TickerStop, NewTimer ttrMargin, Terminate],
        Blocks)"
proof -
  let ?r1 = "(fresh_result sample_job)\<lparr>Stdout := [104, 105]\<rparr>"
  have s1: "child_started sample_env" "child_started hung_child_env"
    "child_started (sample_env\<lparr>wait_events := [TimerC]\<rparr>)"
    by (simp_all add: child_started_def sample_env_def hung_child_env_def Second_def ttrMargin_def)
  have o: "stdoutReader (fresh_result sample_job) (out_events sample_env) = ([], Some ?r1)"
    "stdoutReader (fresh_result sample_job) (out_events hung_child_env) = ([], Some ?r1)"
    "stdoutReader (fresh_result sample_job) (out_events (sample_env\<lparr>wait_events := [TimerC]\<rparr>))
       = ([], Some ?r1)"
    by (simp_all add: sample_env_def hung_child_env_def fresh_result_def)
  have w: "wait_events sample_env = WaitC \<lparr>Status = 1, Err = None\<rparr> # []"
    "wait_events hung_child_env = replicate (Suc 0) TimerC @ WaitC \<lparr>Status = - 1, Err = None\<rparr> # []"
    "wait_events (sample_env\<lparr>wait_events := [TimerC]\<rparr>) = replicate (Suc 0) TimerC"
    by (simp_all add: sample_env_def hung_child_env_def)
  have v: "fst (TimeLeft_r sample_env) - ttrMargin = 4 * Second"
    "fst (TimeLeft_r hung_child_env) - ttrMargin = 4 * Second"
    "fst (TimeLeft_r (sample_env\<lparr>wait_events := [TimerC]\<rparr>)) - ttrMargin = 4 * Second"
    "Body sample_job = [120]"
    "?r1\<lparr>ExitStatus := 1\<rparr> = sample_result 1 False"
    "?r1\<lparr>TimedOut := True, ExitStatus := - 1\<rparr> = sample_result (- 1) True"
    by (simp_all add: sample_env_def hung_child_env_def Second_def ttrMargin_def sample_job_def
        fresh_result_def sample_result_def)
  show ?thesis
    using wait_phase_race [OF s1(1) o(1), where wr = "\<lparr>Status = 1, Err = None\<rparr>" and es = "[]"
        and c = "''cat''"]
      wait_phase_race [OF s1(2) o(2), where wr = "\<lparr>Status = - 1, Err = None\<rparr>" and es = "[]"
        and n = 0 and c = "''cat''"]
      wait_phase_race [OF s1(3) o(3), where n = "Suc 0" and c = "''cat''"]
      s1 w v
    by simp
qed

text \<open>
  Claim C6, as amended. When the command cannot be built or the child cannot be started,
  \<open>executeJob\<close> hands the failure back as its error value, with the \<open>Error\<close> field of
  the result left empty; the loop panics on that error at once, so it issues no delete,
  release or bury and emits no result.
\<close>

theorem failed_command_panics:
  assumes "reserve_r env = Reserved jid body" and "policy_passes env"
    and "0 < sint (fst (TimeLeft_r env) - ttrMargin)" and "snd (TimeLeft_r env) = None"
  shows "(NewCommand_r env = Some e \<longrightarrow>
            executeJob \<lparr>Id_job = jid, Body = body\<rparr> (Cmd b) env =
              ([TimeLeft, NewTicker (fst (TimeLeft_r env) - ttrMargin), NewCommand (Cmd b)],
               Returns (fresh_result \<lparr>Id_job = jid, Body = body\<rparr>, Some e))
            \<and> Run_body b env =
              ([Reserve, JobReceived, Timeouts, Releases, TimeLeft,
                NewTicker (fst (TimeLeft_r env) - ttrMargin), NewCommand (Cmd b)], Panicked))
       \<and> (NewCommand_r env = None \<and> Start_r env = Some e \<longrightarrow>
            executeJob \<lparr>Id_job = jid, Body = body\<rparr> (Cmd b) env =
              ([TimeLeft, NewTicker (fst (TimeLeft_r env) - ttrMargin), NewCommand (Cmd b),
                StartWithStdin body],
               Returns (fresh_result \<lparr>Id_job = jid, Body = body\<rparr>, Some e))
            \<and> Run_body b env =
              ([Reserve, JobReceived, Timeouts, Releases, TimeLeft,
                NewTicker (fst (TimeLeft_r env) - ttrMargin), NewCommand (Cmd b),
                StartWithStdin body], Panicked))
       \<and> (NewCommand_r env \<noteq> None \<or> Start_r env \<noteq> None \<longrightarrow>
            (\<forall>x \<in> set (fst (Run_body b env)). \<not> terminal x \<and> (\<forall>r. x \<noteq> Emit r)))
       \<and> Error (fresh_result \<lparr>Id_job = jid, Body = body\<rparr>) = None"
proof -
  have pre: "\<not> sint (fst (TimeLeft_r env) - ttrMargin) \<le> 0" using assms(3) by simp
  have pol: "snd (Timeouts_r env) = None" "\<not> TimeoutTries \<le> fst (Timeouts_r env)"
    "snd (Releases_r env) = None" "\<not> ReleaseTries \<le> fst (Releases_r env)"
    using assms(2) by (simp_all add: policy_passes_def not_le)
  have x1: "NewCommand_r env = Some e \<Longrightarrow>
      executeJob \<lparr>Id_job = jid, Body = body\<rparr> (Cmd b) env =
        ([TimeLeft, NewTicker (fst (TimeLeft_r env) - ttrMargin), NewCommand (Cmd b)],
         Returns (fresh_result \<lparr>Id_job = jid, Body = body\<rparr>, Some e))" for e
    using pre assms(4) by (simp add: executeJob_def Let_def fresh_result_def)
  have x2: "NewCommand_r env = None \<Longrightarrow> Start_r env = Some e \<Longrightarrow>
      executeJob \<lparr>Id_job = jid, Body = body\<rparr> (Cmd b) env =
        ([TimeLeft, NewTicker (fst (TimeLeft_r env) - ttrMargin), NewCommand (Cmd b),
          StartWithStdin body],
         Returns (fresh_result \<lparr>Id_job = jid, Body = body\<rparr>, Some e))" for e
    using pre assms(4) by (simp add: executeJob_def Let_def fresh_result_def)
  have r1: "NewCommand_r env = Some e \<Longrightarrow>
      Run_body b env =
        ([Reserve, JobReceived, Timeouts, Releases, TimeLeft,
          NewTicker (fst (TimeLeft_r env) - ttrMargin), NewCommand (Cmd b)], Panicked)" for e
    using assms(1) pol x1 [of e] by (simp add: Run_body_def Let_def)
  have r2: "NewCommand_r env = None \<Longrightarrow> Start_r env = Some e \<Longrightarrow>
      Run_body b env =
        ([Reserve, JobReceived, Timeouts, Releases, TimeLeft,
          NewTicker (fst (TimeLeft_r env) - ttrMargin), NewCommand (Cmd b),
          StartWithStdin body], Panicked)" for e
    using assms(1) pol x2 [of e] by (simp add: Run_body_def Let_def)
  have r3: "NewCommand_r env \<noteq> None \<or> Start_r env \<noteq> None \<Longrightarrow>
      \<forall>x \<in> set (fst (Run_body b env)). \<not> terminal x \<and> (\<forall>r. x \<noteq> Emit r)"
  proof (cases "NewCommand_r env")
    case None
    assume "NewCommand_r env \<noteq> None \<or> Start_r env \<noteq> None"
    then obtain e' where "Start_r env = Some e'" using None by auto
    then show ?thesis using r2 [OF None] by simp
  next
    case (Some e')
    then show ?thesis using r1 by simp
  qed
  show ?thesis using x1 x2 r1 r2 r3 by (simp add: fresh_result_def)
qed

text \<open>
  A broker with a results channel and a command that cannot be built: the iteration ends
  in a panic, nothing is emitted, and the result record carries no error.
\<close>

theorem failed_command_counterexample:
  "Run_body sample_broker (sample_env\<lparr>NewCommand_r := Some (GoError ''empty command'')\<rparr>) =
     ([Reserve, JobReceived, Timeouts, Releases, TimeLeft, NewTicker (4 * Second),
       NewCommand ''cat''], Panicked)
   \<and> results sample_broker
   \<and> executeJob sample_job ''cat'' (sample_env\<lparr>NewCommand_r := Some (GoError ''empty command'')\<rparr>)
     = ([TimeLeft, NewTicker (4 * Second), NewCommand ''cat''],
        Returns (fresh_result sample_job, Some (GoError ''empty command'')))
   \<and> Error (fresh_result sample_job) = None
   \<and> Run_body sample_broker (sample_env\<lparr>Start_r := Some (GoError ''fork failed'')\<rparr>) =
     ([Reserve, JobReceived, Timeouts, Releases, TimeLeft, NewTicker (4 * Second),
       NewCommand ''cat'', StartWithStdin [120]], Panicked)"
  by (simp add: Run_body_def executeJob_def Let_def sample_broker_def sample_env_def
      sample_job_def fresh_result_def Second_def ttrMargin_def TimeoutTries_def ReleaseTries_def)

theorem failed_command_panics_witness:
  "policy_passes (sample_env\<lparr>NewCommand_r := Some (GoError ''empty command'')\<rparr>)
   \<and> 0 < sint (fst (TimeLeft_r (sample_env\<lparr>NewCommand_r := Some (GoError ''empty command'')\<rparr>))
        - ttrMargin)
   \<and> snd (Run_body dispatched_broker
        (sample_env\<lparr>NewCommand_r := Some (GoError ''empty command'')\<rparr>)) = Panicked
   \<and> Delete \<notin> set (fst (Run_body dispatched_broker
        (sample_env\<lparr>NewCommand_r := Some (GoError ''empty command'')\<rparr>)))
   \<and> snd (Run_body dispatched_broker
        (sample_env\<lparr>Start_r := Some (GoError ''fork failed'')\<rparr>)) = Panicked"
proof -
  let ?e1 = "sample_env\<lparr>NewCommand_r := Some (GoError ''empty command'')\<rparr>"
  let ?e2 = "sample_env\<lparr>Start_r := Some (GoError ''fork failed'')\<rparr>"
  have a: "reserve_r ?e1 = Reserved 7 [120]" "policy_passes ?e1"
    "0 < sint (fst (TimeLeft_r ?e1) - ttrMargin)" "snd (TimeLeft_r ?e1) = None"
    by (simp_all add: sample_env_def policy_passes_def TimeoutTries_def ReleaseTries_def
        Second_def ttrMargin_def)
  have b: "reserve_r ?e2 = Reserved 7 [120]" "policy_passes ?e2"
    "0 < sint (fst (TimeLeft_r ?e2) - ttrMargin)" "snd (TimeLeft_r ?e2) = None"
    by (simp_all add: sample_env_def policy_passes_def TimeoutTries_def ReleaseTries_def
        Second_def ttrMargin_def)
  have c: "NewCommand_r ?e1 = Some (GoError ''empty command'')"
    "NewCommand_r ?e2 = None" "Start_r ?e2 = Some (GoError ''fork failed'')"
    by (simp_all add: sample_env_def)
  have t: "terminal Delete" by simp
  show ?thesis
    using failed_command_panics [OF a, of "GoError ''empty command''" dispatched_broker]
      failed_command_panics [OF b, of "GoError ''fork failed''" dispatched_broker] a b c t
    by auto
qed

section \<open>A timed-out execution\<close>

lemma hung_child_execute:
  "executeJob \<lparr>Id_job = 7, Body = [120]\<rparr> (Cmd dispatched_broker) hung_child_env =
     ([TimeLeft, NewTicker (4 * Second), NewCommand ''cat'', StartWithStdin [120],
       TickerStop, NewTimer ttrMargin, Terminate, TimerStop],
      Returns (sample_result (- 1) True, None))"
  by (simp add: executeJob_def hung_child_env_def sample_env_def sample_result_def
      dispatched_broker_def Second_def ttrMargin_def)

text \<open>
  Claim C5. For a result with \<open>TimedOut\<close> set, \<open>handleResult\<close> returns at once: it
  issues no call at all, so neither delete nor release nor bury, and reports no error.
  The iteration whose execution timed out thus consists of the reservation, the policy
  check and the execution, followed by the result on the results channel if there is one:
  no delete, release or bury occurs in it, and the loop goes on.
\<close>

theorem handleResult_timed_out:
  assumes "TimedOut result"
  shows "handleResult job result env = ([], None)
       \<and> (reserve_r env = Reserved jid body \<and> policy_passes env
           \<and> executeJob \<lparr>Id_job = jid, Body = body\<rparr> (Cmd b) env = (evs, Returns (result, None))
           \<longrightarrow> Run_body b env =
                 ([Reserve, JobReceived, Timeouts, Releases] @ evs @ emit b result, Continue)
               \<and> (\<forall>x \<in> set (fst (Run_body b env)). \<not> terminal x))"
proof -
  have h: "handleResult j result env = ([], None)" for j
    using assms by (simp add: handleResult_def)
  have r: "Run_body b env =
        ([Reserve, JobReceived, Timeouts, Releases] @ evs @ emit b result, Continue)
      \<and> (\<forall>x \<in> set (fst (Run_body b env)). \<not> terminal x)"
    if p: "reserve_r env = Reserved jid body" "policy_passes env"
      "executeJob \<lparr>Id_job = jid, Body = body\<rparr> (Cmd b) env = (evs, Returns (result, None))"
  proof -
    have e: "Run_body b env =
        ([Reserve, JobReceived, Timeouts, Releases] @ evs @ emit b result, Continue)"
      using Run_body_executed [OF p] by (simp add: h)
    have "\<not> terminal x" if "x \<in> set evs" for x
      using executeJob_events [of x "\<lparr>Id_job = jid, Body = body\<rparr>" "Cmd b" env] that p(3)
      by simp
    then show ?thesis unfolding e by (auto simp: emit_def)
  qed
  show ?thesis using h r by blast
qed

theorem handleResult_timed_out_witness:
  "TimedOut (sample_result (- 1) True)
   \<and> handleResult sample_job (sample_result (- 1) True) hung_child_env = ([], None)
   \<and> policy_passes hung_child_env
   \<and> Run_body dispatched_broker hung_child_env =
       ([Reserve, JobReceived, Timeouts, Releases, TimeLeft, NewTicker (4 * Second),
         NewCommand ''cat'', StartWithStdin [120], TickerStop, NewTimer ttrMargin, Terminate,
         TimerStop], Continue)"
proof -
  have a: "TimedOut (sample_result (- 1) True)" by (simp add: sample_result_def)
  have p: "reserve_r hung_child_env = Reserved 7 [120]" "policy_passes hung_child_env"
    by (simp_all add: hung_child_env_def sample_env_def policy_passes_def TimeoutTries_def
        ReleaseTries_def)
  have n: "emit dispatched_broker (sample_result (- 1) True) = []"
    by (simp add: emit_def dispatched_broker_def)
  show ?thesis
    using handleResult_timed_out [OF a, of sample_job hung_child_env 7 "[120]" dispatched_broker
        "[TimeLeft, NewTicker (4 * Second), NewCommand ''cat'', StartWithStdin [120],
          TickerStop, NewTimer ttrMargin, Terminate, TimerStop]"]
      a p hung_child_execute n
    by simp
qed

section \<open>The reserve loop and cancellation\<close>

lemma handleResult_events:
  assumes "e \<in> set (fst (handleResult job result env))"
  shows "e = Delete \<or> e = Releases \<or> e = Release (backoff (released_count env))"
  using assms by (auto simp: handleResult_def Let_def released_count_def split: if_splits)

lemma Run_body_Terminate:
  assumes "Terminate \<in> set (fst (Run_body b env))"
  shows "TimerC \<in> set (wait_events env)"
proof -
  have x: "executeJob j c env = (evs, r) \<Longrightarrow> Terminate \<in> set evs
      \<Longrightarrow> TimerC \<in> set (wait_events env)" for j c evs r
    using executeJob_events [of Terminate j c env] by simp
  have h: "handleResult j r env = (evs, x) \<Longrightarrow> Terminate \<notin> set evs" for j r evs x
    using handleResult_events [of Terminate j r env] by auto
  show ?thesis
    using assms
    by (auto simp: Run_body_def Let_def emit_def
        split: reserve_result.splits if_splits prod.splits outcome.splits option.splits
        dest: x h)
qed

lemma executeJob_cancel_fires:
  "executeJob j c (env\<lparr>cancel_fires := x\<rparr>) = executeJob j c env"
  by (simp add: executeJob_def Let_def split: option.splits prod.splits)

lemma handleResult_cancel_fires:
  "handleResult j r (env\<lparr>cancel_fires := x\<rparr>) = handleResult j r env"
  by (simp add: handleResult_def)

lemma Run_body_cancel_fires: "Run_body b (env\<lparr>cancel_fires := c\<rparr>) = Run_body b env"
  by (simp add: Run_body_def Let_def executeJob_cancel_fires handleResult_cancel_fires
      split: reserve_result.splits prod.splits outcome.splits option.splits)

lemma Run_loop_cancelled: "fst (Run_loop b ticks True envs) = []"
  by (cases envs) (simp_all split: tick_recv.splits)

lemma Run_loop_cancelled_exits:
  "recv_tick ticks \<noteq> RecvBlocked \<Longrightarrow> Run_loop b ticks True envs = ([], Finished)"
  by (cases envs) (simp_all split: tick_recv.splits)

text \<open>
  Claim C8. The loop looks at the cancellation token only at its top, after the optional
  tick. With the token fired the loop does nothing more: no reservation is attempted, and
  unless the tick channel blocks the receive for ever the broker finishes. A reservation
  that times out leads straight back to that check. What an iteration does is independent of
  the token firing while it runs: the execution goes on to its end, the child is
  terminated only after a receive from the kill timer, and the loop finishes at the next
  check.
\<close>

theorem cancellation_at_loop_top:
  "fst (Run_loop b ticks True envs) = []
   \<and> (recv_tick ticks \<noteq> RecvBlocked \<longrightarrow> Run_loop b ticks True envs = ([], Finished))
   \<and> (recv_tick ticks = Pass ticks' \<and> reserve_r env = ReserveTimeout \<longrightarrow>
        Run_loop b ticks False (env # rest) =
          (Reserve # fst (Run_loop b ticks' (cancel_fires env) rest),
           snd (Run_loop b ticks' (cancel_fires env) rest)))
   \<and> Run_body b (env\<lparr>cancel_fires := True\<rparr>) = Run_body b (env\<lparr>cancel_fires := False\<rparr>)
   \<and> (Terminate \<in> set (fst (Run_body b env)) \<longrightarrow> TimerC \<in> set (wait_events env))
   \<and> (recv_tick ticks = Pass ticks' \<and> Run_body b env = (evs, Continue) \<and> cancel_fires env \<longrightarrow>
        fst (Run_loop b ticks False (env # rest)) = evs
        \<and> (recv_tick ticks' \<noteq> RecvBlocked \<longrightarrow>
             Run_loop b ticks False (env # rest) = (evs, Finished)))"
proof -
  have c: "recv_tick ticks = Pass ticks' \<Longrightarrow> reserve_r env = ReserveTimeout \<Longrightarrow>
        Run_loop b ticks False (env # rest) =
          (Reserve # fst (Run_loop b ticks' (cancel_fires env) rest),
           snd (Run_loop b ticks' (cancel_fires env) rest))"
    by (simp add: Run_body_def split: prod.splits)
  have e1: "fst (Run_loop b ticks False (env # rest)) = evs"
    if h: "recv_tick ticks = Pass ticks'" "Run_body b env = (evs, Continue)" "cancel_fires env"
  proof -
    obtain x where "Run_loop b ticks' True rest = ([], x)"
      using Run_loop_cancelled [of b ticks' rest] by (metis prod.collapse)
    then show ?thesis using h by simp
  qed
  have e2: "recv_tick ticks = Pass ticks' \<Longrightarrow> Run_body b env = (evs, Continue) \<Longrightarrow>
        cancel_fires env \<Longrightarrow> recv_tick ticks' \<noteq> RecvBlocked \<Longrightarrow>
        Run_loop b ticks False (env # rest) = (evs, Finished)"
    using Run_loop_cancelled_exits [of ticks' b rest] by simp
  show ?thesis
    using c e1 e2 Run_loop_cancelled [of b ticks envs] Run_loop_cancelled_exits [of ticks b envs]
      Run_body_cancel_fires [where b = b and env = env] Run_body_Terminate [of b env]
    by simp
qed

lemma sample_Run_body:
  "Run_body dispatched_broker sample_env =
     ([Reserve, JobReceived, Timeouts, Releases, TimeLeft, NewTicker (4 * Second),
       NewCommand ''cat'', StartWithStdin [120], TickerStop, NewTimer ttrMargin, TimerStop,
       Releases, Release (16 * Second)], Continue)"
  by (simp add: Run_body_def executeJob_def handleResult_def Let_def emit_def backoff_def
      dispatched_broker_def sample_env_def Second_def ttrMargin_def TimeoutTries_def
      ReleaseTries_def)

theorem cancellation_at_loop_top_witness:
  "Run_loop dispatched_broker None True [sample_env] = ([], Finished)
   \<and> Run_loop dispatched_broker None False
       [sample_env\<lparr>reserve_r := ReserveTimeout\<rparr>, sample_env\<lparr>cancel_fires := True\<rparr>, sample_env]
     = ([Reserve,
         Reserve, JobReceived, Timeouts, Releases, TimeLeft, NewTicker (4 * Second),
         NewCommand ''cat'', StartWithStdin [120], TickerStop, NewTimer ttrMargin, TimerStop,
         Releases, Release (16 * Second)], Finished)"
proof -
  let ?t = "sample_env\<lparr>reserve_r := ReserveTimeout\<rparr>"
  let ?c = "sample_env\<lparr>cancel_fires := True\<rparr>"
  have g: "recv_tick None = Pass None" "recv_tick None \<noteq> RecvBlocked" by simp_all
  have t: "reserve_r ?t = ReserveTimeout" "\<not> cancel_fires ?t" "cancel_fires ?c"
    by (simp_all add: sample_env_def)
  have a: "Run_loop dispatched_broker None True [sample_env] = ([], Finished)"
    using cancellation_at_loop_top [of dispatched_broker None "[sample_env]"] g by simp
  have b: "Run_loop dispatched_broker None False [?c, sample_env]
      = (fst (Run_body dispatched_broker ?c), Finished)"
    using cancellation_at_loop_top [of dispatched_broker None "[]" None ?c "[sample_env]"
        "fst (Run_body dispatched_broker ?c)"] g t(3) sample_Run_body
    by (simp add: Run_body_cancel_fires)
  have c: "Run_loop dispatched_broker None False [?t, ?c, sample_env]
      = (Reserve # fst (Run_loop dispatched_broker None False [?c, sample_env]),
         snd (Run_loop dispatched_broker None False [?c, sample_env]))"
    using cancellation_at_loop_top [of dispatched_broker None "[]" None ?t "[?c, sample_env]"] g t
    by simp
  show ?thesis using a b c sample_Run_body by (simp add: Run_body_cancel_fires)
qed

section \<open>The job limit\<close>

lemma countLoop_append:
  "countLoop nlimit g (xs @ ys) =
     countLoop nlimit g xs @ countLoop nlimit (g + word_of_nat (length xs)) ys"
  by (induction xs arbitrary: g) (simp_all add: ac_simps)

lemma countLoop_quiet:
  assumes "nlimit = 0 \<or> (\<forall>j < length toks. g + word_of_nat j \<noteq> nlimit)"
  shows "countLoop nlimit g toks = replicate (length toks) TokenReceived"
  using assms
proof (induction toks arbitrary: g)
  case Nil
  show ?case by simp
next
  case (Cons tok toks)
  show ?case
  proof (cases "nlimit = 0")
    case True
    then show ?thesis using Cons.IH [of "g + 1"] by simp
  next
    case False
    then have h: "\<forall>j < Suc (length toks). g + word_of_nat j \<noteq> nlimit"
      using Cons.prems by simp
    have h0: "g \<noteq> nlimit" using h [rule_format, of 0] by simp
    have "\<forall>j < length toks. (g + 1) + word_of_nat j \<noteq> nlimit"
    proof (intro allI impI)
      fix j assume "j < length toks"
      then have "Suc j < Suc (length toks)" by simp
      then have "g + word_of_nat (Suc j) \<noteq> nlimit" using h by blast
      then show "(g + 1) + word_of_nat j \<noteq> nlimit" by (simp add: ac_simps)
    qed
    then show ?thesis using Cons.IH [of "g + 1"] h0 by simp
  qed
qed

lemma unit_list: "(toks :: unit list) = replicate (length toks) ()"
  by (induction toks) simp_all

lemma word_of_nat_neq:
  assumes "n < unat (w :: uint64)"
  shows "word_of_nat n \<noteq> w"
proof
  assume "word_of_nat n = w"
  then have "unat w = unat (word_of_nat n :: uint64)" by (rule arg_cong [OF sym])
  also have "\<dots> = n mod 2 ^ 64" by (simp add: unat_of_nat)
  finally have "unat w = n mod 2 ^ 64" .
  moreover have "n mod 2 ^ 64 \<le> n" by simp
  ultimately show False using assms by simp
qed

lemma countLoop_cap:
  assumes "nlimit \<noteq> 0" and "unat nlimit \<le> length toks"
  shows "limittedCountGenerator nlimit toks =
     replicate (unat nlimit) TokenReceived
     @ CancelCalled # countLoop nlimit (nlimit + 1) (drop (unat nlimit) toks)"
proof -
  let ?n = "unat nlimit"
  have pos: "0 < ?n" using assms(1) by (simp add: unat_gt_0)
  obtain m where m: "?n = Suc m" using pos by (cases ?n) simp_all
  have split: "toks = replicate m () @ () # drop ?n toks"
  proof -
    have "toks = take m toks @ drop m toks" by simp
    moreover have "take m toks = replicate m ()"
      using unit_list [of "take m toks"] assms(2) m by simp
    moreover have "drop m toks = () # drop ?n toks"
    proof -
      have "m < length toks" using assms(2) m by simp
      then have "drop m toks = toks ! m # drop (Suc m) toks" by (rule Cons_nth_drop_Suc [symmetric])
      then show ?thesis using m by simp
    qed
    ultimately show ?thesis by simp
  qed
  have quiet: "countLoop nlimit 1 (replicate m ()) = replicate m TokenReceived"
  proof -
    have "\<forall>j < length (replicate m ()). (1::uint64) + word_of_nat j \<noteq> nlimit"
    proof (intro allI impI)
      fix j assume "j < length (replicate m ())"
      then have "Suc j < ?n" using m by simp
      then have "word_of_nat (Suc j) \<noteq> nlimit" by (rule word_of_nat_neq)
      then show "(1::uint64) + word_of_nat j \<noteq> nlimit" by simp
    qed
    then show ?thesis using countLoop_quiet [of nlimit "replicate m ()" 1] by simp
  qed
  have at: "(1::uint64) + word_of_nat m = nlimit"
  proof -
    have "(1::uint64) + word_of_nat m = word_of_nat (Suc m)" by simp
    also have "\<dots> = word_of_nat (unat nlimit)" using m by simp
    finally show ?thesis by simp
  qed
  have "limittedCountGenerator nlimit toks
      = countLoop nlimit 1 (replicate m () @ () # drop ?n toks)"
    using split by (simp add: limittedCountGenerator_def)
  also have "\<dots> = replicate m TokenReceived
      @ TokenReceived # CancelCalled # countLoop nlimit (nlimit + 1) (drop ?n toks)"
    unfolding countLoop_append quiet using at assms(1) by simp
  also have "\<dots> = replicate ?n TokenReceived
      @ CancelCalled # countLoop nlimit (nlimit + 1) (drop ?n toks)"
    unfolding m by (simp add: replicate_append_same)
  finally show ?thesis .
qed

lemma countLoop_after_cap:
  assumes "length toks < 2 ^ 64 - 1"
  shows "countLoop nlimit (nlimit + 1) toks = replicate (length toks) TokenReceived"
proof -
  have "\<forall>j < length toks. (nlimit + 1) + word_of_nat j \<noteq> nlimit"
  proof (intro allI impI notI)
    fix j assume j: "j < length toks" and e: "(nlimit + 1) + word_of_nat j = nlimit"
    have "nlimit + word_of_nat (Suc j) = nlimit + 0" using e by (simp add: add.assoc)
    then have "(word_of_nat (Suc j) :: uint64) = 0" by (simp only: add_left_cancel)
    then have "(2::nat) ^ LENGTH(64) dvd Suc j" by (simp only: word_of_nat_eq_0_iff)
    then have "(2::nat) ^ 64 dvd Suc j" by simp
    then have "(2::nat) ^ 64 \<le> Suc j" by (rule dvd_imp_le) simp
    then show False using j assms by simp
  qed
  then show ?thesis by (rule countLoop_quiet [OF disjI2])
qed

lemma countLoop_drains:
  "length (filter (\<lambda>e. e = TokenReceived) (countLoop nlimit g toks)) = length toks"
  by (induction toks arbitrary: g) simp_all

lemma takeWhile_tokens:
  "takeWhile (\<lambda>e. e \<noteq> CancelCalled) (replicate n TokenReceived @ CancelCalled # rest)
     = replicate n TokenReceived"
  by (induction n) simp_all

text \<open>
  Claim C3. With a limit \<open>nlimit > 0\<close> the counter task receives \<open>nlimit\<close> tokens and
  then calls \<open>cancel\<close>: exactly \<open>nlimit\<close> receives come before the first call, which
  follows the \<open>nlimit\<close>-th receive at once; it goes on receiving, and calls \<open>cancel\<close>
  no second time on any channel of fewer than \<open>2 ^ 64\<close> tokens. With fewer than
  \<open>nlimit\<close> tokens, and with \<open>nlimit = 0\<close>, it never calls \<open>cancel\<close>. In every case
  it receives every token of the channel.
\<close>

theorem counter_cancels_at_cap:
  "(nlimit \<noteq> 0 \<and> unat nlimit \<le> length toks \<longrightarrow>
      limittedCountGenerator nlimit toks =
        replicate (unat nlimit) TokenReceived
        @ CancelCalled # countLoop nlimit (nlimit + 1) (drop (unat nlimit) toks)
      \<and> takeWhile (\<lambda>e. e \<noteq> CancelCalled) (limittedCountGenerator nlimit toks) =
        replicate (unat nlimit) TokenReceived
      \<and> (length toks < 2 ^ 64 \<longrightarrow>
           limittedCountGenerator nlimit toks =
             replicate (unat nlimit) TokenReceived
             @ CancelCalled # replicate (length toks - unat nlimit) TokenReceived))
   \<and> (nlimit \<noteq> 0 \<and> length toks < unat nlimit \<longrightarrow>
        limittedCountGenerator nlimit toks = replicate (length toks) TokenReceived)
   \<and> (nlimit = 0 \<longrightarrow>
        limittedCountGenerator nlimit toks = replicate (length toks) TokenReceived)
   \<and> length (filter (\<lambda>e. e = TokenReceived) (limittedCountGenerator nlimit toks))
       = length toks"
proof -
  have a: "limittedCountGenerator nlimit toks =
        replicate (unat nlimit) TokenReceived
        @ CancelCalled # countLoop nlimit (nlimit + 1) (drop (unat nlimit) toks)"
    if "nlimit \<noteq> 0" "unat nlimit \<le> length toks"
    using that by (rule countLoop_cap)
  have b: "takeWhile (\<lambda>e. e \<noteq> CancelCalled) (limittedCountGenerator nlimit toks) =
        replicate (unat nlimit) TokenReceived"
    if "nlimit \<noteq> 0" "unat nlimit \<le> length toks"
    unfolding a [OF that] by (rule takeWhile_tokens)
  have c: "limittedCountGenerator nlimit toks =
        replicate (unat nlimit) TokenReceived
        @ CancelCalled # replicate (length toks - unat nlimit) TokenReceived"
    if h: "nlimit \<noteq> 0" "unat nlimit \<le> length toks" "length toks < 2 ^ 64"
  proof -
    have "0 < unat nlimit" using h(1) by (simp add: unat_gt_0)
    then have "length (drop (unat nlimit) toks) < 2 ^ 64 - 1" using h(3) by simp
    then have "countLoop nlimit (nlimit + 1) (drop (unat nlimit) toks)
        = replicate (length (drop (unat nlimit) toks)) TokenReceived"
      by (rule countLoop_after_cap)
    then show ?thesis unfolding a [OF h(1,2)] by simp
  qed
  have d: "limittedCountGenerator nlimit toks = replicate (length toks) TokenReceived"
    if h: "nlimit \<noteq> 0" "length toks < unat nlimit"
  proof -
    have "\<forall>j < length toks. (1::uint64) + word_of_nat j \<noteq> nlimit"
    proof (intro allI impI)
      fix j assume "j < length toks"
      then have "Suc j < unat nlimit" using h(2) by simp
      then have "word_of_nat (Suc j) \<noteq> nlimit" by (rule word_of_nat_neq)
      then show "(1::uint64) + word_of_nat j \<noteq> nlimit" by simp
    qed
    then show ?thesis
      unfolding limittedCountGenerator_def by (rule countLoop_quiet [OF disjI2])
  qed
  have e: "limittedCountGenerator nlimit toks = replicate (length toks) TokenReceived"
    if "nlimit = 0"
    unfolding limittedCountGenerator_def using that by (intro countLoop_quiet disjI1)
  have f: "length (filter (\<lambda>e. e = TokenReceived) (limittedCountGenerator nlimit toks))
       = length toks"
    unfolding limittedCountGenerator_def by (rule countLoop_drains)
  show ?thesis using a b c d e f by blast
qed

theorem counter_cancels_at_cap_witness:
  "limittedCountGenerator 3 [(), (), (), (), ()] =
     [TokenReceived, TokenReceived, TokenReceived, CancelCalled, TokenReceived, TokenReceived]
   \<and> limittedCountGenerator 3 [(), ()] = [TokenReceived, TokenReceived]
   \<and> limittedCountGenerator 0 [(), (), ()] = [TokenReceived, TokenReceived, TokenReceived]"
proof -
  have n: "unat (3 :: uint64) = 3" "(3 :: uint64) \<noteq> 0" by simp_all
  have l: "length [(), (), (), (), ()] = 5" "length [(), ()] = 2" "length [(), (), ()] = 3"
    by simp_all
  have r: "replicate 3 TokenReceived = [TokenReceived, TokenReceived, TokenReceived]"
    "replicate 2 TokenReceived = [TokenReceived, TokenReceived]"
    by (simp_all add: numeral_3_eq_3 numeral_2_eq_2)
  have k: "(5::nat) < 2 ^ 64" "(5::nat) - 3 = 2" by simp_all
  have a: "limittedCountGenerator 3 [(), (), (), (), ()] =
      [TokenReceived, TokenReceived, TokenReceived, CancelCalled, TokenReceived, TokenReceived]"
    using counter_cancels_at_cap [of 3 "[(), (), (), (), ()]"] n k unfolding l
    by (simp add: r)
  have b: "limittedCountGenerator 3 [(), ()] = [TokenReceived, TokenReceived]"
    using counter_cancels_at_cap [of 3 "[(), ()]"] n unfolding l
    by (simp add: r)
  have c: "limittedCountGenerator 0 [(), (), ()] = [TokenReceived, TokenReceived, TokenReceived]"
    using counter_cancels_at_cap [of 0 "[(), (), ()]"] unfolding l
    by (simp add: r)
  show ?thesis using a b c by simp
qed

section \<open>Brokers per tube and the wait group\<close>

lemma RunTube_loop_running:
  "running (RunTube_loop bd tube i) =
     running bd @ map (\<lambda>j. (tube, word_of_nat j)) [unat i..<unat (perTube bd)]
   \<and> wg (RunTube_loop bd tube i) = wg bd + int (unat (perTube bd) - unat i)
   \<and> tubeSet (RunTube_loop bd tube i) = tubeSet bd
   \<and> perTube (RunTube_loop bd tube i) = perTube bd"
proof (induction bd tube i rule: RunTube_loop.induct)
  case (1 bd tube i)
  show ?case
  proof (cases "i < perTube bd")
    case True
    have l: "unat i < unat (perTube bd)" using True by (simp add: word_less_nat_alt)
    have "unat (perTube bd) < 2 ^ LENGTH(64)" by (rule unsigned_less)
    then have "unat i + unat (1 :: uint64) < 2 ^ LENGTH(64)" using l by simp
    then have "unat (i + 1) = unat i + unat (1 :: uint64)" by (simp only: unat_add_lem)
    then have s: "unat (i + 1) = Suc (unat i)" by simp
    have u: "[unat i..<unat (perTube bd)] = unat i # [Suc (unat i)..<unat (perTube bd)]"
      using l by (rule upt_conv_Cons)
    have p: "perTube (runBroker bd tube i) = perTube bd" by (simp add: runBroker_def)
    have d: "int (unat (perTube bd) - unat i) = 1 + int (unat (perTube bd) - Suc (unat i))"
      using l by simp
    show ?thesis
      using "1.IH" [OF True] True
      by (subst (1 2 3 4) RunTube_loop.simps) (simp add: p s u d, simp add: runBroker_def)
  next
    case False
    then have "unat (perTube bd) \<le> unat i" by (simp add: word_less_nat_alt)
    then show ?thesis using False by (subst (1 2 3 4) RunTube_loop.simps) simp
  qed
qed

lemma RunTube_effect:
  "running (RunTube bd tube) = running bd @ slots tube (perTube bd)
   \<and> wg (RunTube bd tube) = wg bd + int (unat (perTube bd))
   \<and> tubeSet (RunTube bd tube) = (tubeSet bd)(tube \<mapsto> True)
   \<and> perTube (RunTube bd tube) = perTube bd"
  using RunTube_loop_running [of "bd\<lparr>tubeSet := (tubeSet bd)(tube \<mapsto> True)\<rparr>" tube 0]
  by (simp add: RunTube_def slots_def)

lemma RunTubes_effect:
  "running (RunTubes bd tubes) = running bd @ concat (map (\<lambda>t. slots t (perTube bd)) tubes)
   \<and> perTube (RunTubes bd tubes) = perTube bd
   \<and> dom (tubeSet (RunTubes bd tubes)) = dom (tubeSet bd) \<union> set tubes"
  by (induction tubes arbitrary: bd) (auto simp: RunTube_effect)

lemma length_slots: "length (slots tube k) = unat k"
  by (simp add: slots_def)

lemma wg_counts_running:
  "wg bd = int (length (running bd))
   \<Longrightarrow> wg (dispatcher_run bd steps) = int (length (running (dispatcher_run bd steps)))"
proof (induction bd steps rule: dispatcher_run.induct)
  case (1 bd)
  then show ?case by simp
next
  case (2 bd tube steps)
  have "wg (RunTube bd tube) = int (length (running (RunTube bd tube)))"
    using 2(2) by (simp add: RunTube_effect length_slots)
  then show ?case using 2(1) by simp
next
  case (3 bd br steps)
  have "wg (broker_done bd br) = int (length (running (broker_done bd br)))"
  proof (cases "br \<in> set (running bd)")
    case True
    then have "Suc 0 \<le> length (running bd)" by (cases "running bd") auto
    then show ?thesis using 3(2) True by (simp add: broker_done_def length_remove1)
  next
    case False
    then show ?thesis using 3(2) by (simp add: broker_done_def)
  qed
  then show ?case using 3(1) by simp
qed

lemma distinct_slots: "distinct (slots tube k)"
proof -
  have "inj_on (\<lambda>i. (tube, word_of_nat i :: uint64)) {0..<unat k}"
  proof (rule inj_onI)
    fix i j assume i: "i \<in> {0..<unat k}" and j: "j \<in> {0..<unat k}"
      and e: "(tube, word_of_nat i :: uint64) = (tube, word_of_nat j)"
    have b: "unat k < 2 ^ LENGTH(64)" by (rule unsigned_less)
    have "unat (word_of_nat i :: uint64) = unat (word_of_nat j :: uint64)" using e by simp
    then have "i mod 2 ^ LENGTH(64) = j mod 2 ^ LENGTH(64)" by (simp only: unat_of_nat)
    moreover have "i < 2 ^ LENGTH(64)" "j < 2 ^ LENGTH(64)" using i j b by auto
    ultimately show "i = j" by simp
  qed
  then show ?thesis by (simp add: slots_def distinct_map)
qed

lemma fst_slots: "x \<in> set (concat (map (\<lambda>t. slots t k) tubes)) \<Longrightarrow> fst x \<in> set tubes"
  by (auto simp: slots_def)

lemma distinct_all_slots:
  "distinct tubes \<Longrightarrow> distinct (concat (map (\<lambda>t. slots t k) tubes))"
proof (induction tubes)
  case Nil
  show ?case by simp
next
  case (Cons t ts)
  have "set (slots t k) \<inter> set (concat (map (\<lambda>t. slots t k) ts)) = {}"
  proof (rule ccontr)
    assume "set (slots t k) \<inter> set (concat (map (\<lambda>t. slots t k) ts)) \<noteq> {}"
    then obtain x where x: "x \<in> set (slots t k)" "x \<in> set (concat (map (\<lambda>t. slots t k) ts))"
      by blast
    have "fst x = t" using x(1) by (auto simp: slots_def)
    moreover have "fst x \<in> set ts" using x(2) by (rule fst_slots)
    ultimately show False using Cons.prems by simp
  qed
  then show ?case using Cons distinct_slots [of t k] by simp
qed

lemma length_all_slots: "length (concat (map (\<lambda>t. slots t k) tubes)) = unat k * length tubes"
  by (induction tubes) (simp_all add: length_slots)

text \<open>
  Claim C9. \<open>RunTube\<close> enters the tube into the tube set and starts one broker for each
  slot index from 0 to \<open>perTube - 1\<close>, in that order. From a new dispatcher with
  \<open>perTube = k\<close>, \<open>RunTubes\<close> over \<open>t\<close> tubes starts \<open>k * t\<close> brokers, all
  different when the tubes are, and the tube set holds exactly those tubes. Along every
  history of \<open>RunTube\<close> calls and returning brokers the wait group counts the brokers
  still running, so \<open>Wait\<close> returns only when none is left.
\<close>

theorem RunTube_starts_perTube_brokers:
  "tubeSet (RunTube bd tube) = (tubeSet bd)(tube \<mapsto> True)
   \<and> running (RunTube bd tube) =
       running bd @ map (\<lambda>i. (tube, word_of_nat i)) [0..<unat (perTube bd)]
   \<and> length (running (RunTubes (NewBrokerDispatcher a c k m) tubes)) = unat k * length tubes
   \<and> (distinct tubes \<longrightarrow> distinct (running (RunTubes (NewBrokerDispatcher a c k m) tubes)))
   \<and> dom (tubeSet (RunTubes (NewBrokerDispatcher a c k m) tubes)) = set tubes
   \<and> wg (dispatcher_run (NewBrokerDispatcher a c k m) steps)
       = int (length (running (dispatcher_run (NewBrokerDispatcher a c k m) steps)))
   \<and> (Wait (dispatcher_run (NewBrokerDispatcher a c k m) steps) \<longrightarrow>
        running (dispatcher_run (NewBrokerDispatcher a c k m) steps) = [])"
proof -
  let ?bd = "NewBrokerDispatcher a c k m"
  have i: "running ?bd = []" "perTube ?bd = k" "tubeSet ?bd = Map.empty" "wg ?bd = 0"
    by (simp_all add: NewBrokerDispatcher_def)
  have r: "running (RunTubes ?bd tubes) = concat (map (\<lambda>t. slots t k) tubes)"
    using RunTubes_effect [of ?bd tubes] i by simp
  have d: "dom (tubeSet (RunTubes ?bd tubes)) = set tubes"
    using RunTubes_effect [of ?bd tubes] i by simp
  have w: "wg (dispatcher_run ?bd steps) = int (length (running (dispatcher_run ?bd steps)))"
    by (rule wg_counts_running) (simp add: i)
  have e: "Wait (dispatcher_run ?bd steps) \<Longrightarrow> running (dispatcher_run ?bd steps) = []"
    using w by (simp add: Wait_def)
  show ?thesis
    using RunTube_effect [of bd tube] r d w e
    by (simp add: slots_def [symmetric] length_all_slots distinct_all_slots)
qed

lemma sample_slots: "slots t 2 = [(t, 0), (t, 1)]"
proof -
  have "unat (2 :: uint64) = Suc (Suc 0)" by simp
  then show ?thesis unfolding slots_def by (simp add: upt_rec)
qed

theorem RunTube_starts_perTube_brokers_witness:
  "running (RunTube sample_dispatcher ''a'') = [(''a'', 0), (''a'', 1)]
   \<and> distinct [''a'', ''b'']
   \<and> length (running (RunTubes sample_dispatcher [''a'', ''b''])) = 4
   \<and> distinct (running (RunTubes sample_dispatcher [''a'', ''b'']))
   \<and> \<not> Wait (dispatcher_run sample_dispatcher [CallRunTube ''a'', BrokerReturns (''a'', 1)])
   \<and> Wait (dispatcher_run sample_dispatcher
        [CallRunTube ''a'', BrokerReturns (''a'', 1), BrokerReturns (''a'', 0)])
   \<and> running (dispatcher_run sample_dispatcher
        [CallRunTube ''a'', BrokerReturns (''a'', 1), BrokerReturns (''a'', 0)]) = []"
proof -
  have i: "running sample_dispatcher = []" "perTube sample_dispatcher = 2"
    "wg sample_dispatcher = 0"
    by (simp_all add: sample_dispatcher_def NewBrokerDispatcher_def)
  have d: "distinct [''a'', ''b'']" by simp
  have u: "unat (2 :: uint64) * length [''a'', ''b''] = 4"
    "map (\<lambda>i. (''a'', word_of_nat i :: uint64)) [0..<unat (2 :: uint64)] = [(''a'', 0), (''a'', 1)]"
    using sample_slots [of "''a''"] by (simp_all add: slots_def)
  have w1: "\<not> Wait (dispatcher_run sample_dispatcher [CallRunTube ''a'', BrokerReturns (''a'', 1)])"
    by (simp add: Wait_def broker_done_def RunTube_effect i sample_slots)
  have w2: "Wait (dispatcher_run sample_dispatcher
        [CallRunTube ''a'', BrokerReturns (''a'', 1), BrokerReturns (''a'', 0)])"
    by (simp add: Wait_def broker_done_def RunTube_effect i sample_slots)
  show ?thesis
    using RunTube_starts_perTube_brokers [of sample_dispatcher "''a''" "''127.0.0.1:11300''"
        "''cat''" 2 0 "[''a'', ''b'']"
        "[CallRunTube ''a'', BrokerReturns (''a'', 1), BrokerReturns (''a'', 0)]"]
      i d u w1 w2
    by (simp add: sample_dispatcher_def [symmetric])
qed

section \<open>The backoff schedule\<close>

lemma release_delays_append:
  "release_delays (xs @ ys) = release_delays xs @ release_delays ys"
  by (induction xs rule: release_delays.induct) simp_all

lemma retry_step_release:
  assumes "sj_state sj = Ready" and "sj_timeouts sj = 0" and "sj_releases sj < 10"
    and "0 < sint (sj_time_left sj - ttrMargin)" and "Status wr \<noteq> 0"
  shows "Run_body b (answers sj wr) =
     ([Reserve, JobReceived, Timeouts, Releases, TimeLeft,
       NewTicker (sj_time_left sj - ttrMargin), NewCommand (Cmd b), StartWithStdin (sj_body sj),
       TickerStop, NewTimer ttrMargin, TimerStop, Releases, Release (backoff (sj_releases sj))]
      @ emit b ((fresh_result \<lparr>Id_job = sj_id sj, Body = sj_body sj\<rparr>)\<lparr>ExitStatus := Status wr\<rparr>),
      Continue)"
proof -
  have n: "\<not> sint (sj_time_left sj - ttrMargin) \<le> 0" using assms(4) by simp
  have l: "\<not> (10 :: uint64) \<le> sj_releases sj" using assms(3) by simp
  show ?thesis
    using assms(2,5) n l
    by (simp add: Run_body_def executeJob_def handleResult_def answers_def Let_def
        TimeoutTries_def ReleaseTries_def fresh_result_def)
qed

lemma retry_step_bury:
  assumes "sj_state sj = Ready" and "sj_timeouts sj = 0" and "sj_releases sj = 10"
  shows "Run_body b (answers sj wr) =
     ([Reserve, JobReceived, Timeouts, Releases, Bury]
      @ emit b (buried_result \<lparr>Id_job = sj_id sj, Body = sj_body sj\<rparr>), Continue)"
  using assms
  by (simp add: Run_body_def answers_def Let_def TimeoutTries_def ReleaseTries_def)

lemma fold_emit: "fold server_apply (emit b r) sj = sj"
  by (simp add: emit_def)

lemma release_delays_emit: "release_delays (emit b r) = []"
  by (simp add: emit_def)

lemma retry_not_ready: "sj_state sj \<noteq> Ready \<Longrightarrow> retry n b wr sj = []"
  by (cases n) simp_all

lemma retry_schedule:
  assumes "sj_state sj = Ready" and "sj_timeouts sj = 0" and "unat (sj_releases sj) \<le> 10"
    and "0 < sint (sj_time_left sj - ttrMargin)" and "Status wr \<noteq> 0"
    and "11 - unat (sj_releases sj) \<le> n"
  shows "release_delays (retry n b wr sj)
           = map (\<lambda>i. backoff (word_of_nat i)) [unat (sj_releases sj)..<10]
         \<and> Bury \<in> set (retry n b wr sj)"
  using assms
proof (induction n arbitrary: sj)
  case 0
  then show ?case by simp
next
  case (Suc n)
  show ?case
  proof (cases "sj_releases sj = 10")
    case True
    have u: "unat (sj_releases sj) = 10" using True by simp
    show ?thesis
      using Suc.prems(1) retry_step_bury [OF Suc.prems(1,2) True, of b wr]
      by (simp add: u release_delays_append release_delays_emit fold_emit retry_not_ready)
  next
    case False
    have "unat (sj_releases sj) \<noteq> 10"
    proof
      assume "unat (sj_releases sj) = 10"
      then have "word_of_nat (unat (sj_releases sj)) = (word_of_nat 10 :: uint64)" by simp
      then show False using False by simp
    qed
    then have lt: "unat (sj_releases sj) < 10" using Suc.prems(3) by simp
    then have wlt: "sj_releases sj < 10" by (simp add: word_less_nat_alt)
    let ?sj = "sj\<lparr>sj_releases := sj_releases sj + 1\<rparr>"
    have un: "unat (sj_releases sj + 1) = Suc (unat (sj_releases sj))"
    proof -
      have "unat (sj_releases sj) + unat (1 :: uint64) < 2 ^ LENGTH(64)" using lt by simp
      then have "unat (sj_releases sj + 1) = unat (sj_releases sj) + unat (1 :: uint64)"
        by (simp only: unat_add_lem)
      then show ?thesis by simp
    qed
    note step = retry_step_release [OF Suc.prems(1,2) wlt Suc.prems(4,5), of b]
    have f: "fold server_apply (fst (Run_body b (answers sj wr))) sj = ?sj"
      unfolding step by (simp add: fold_emit)
    have d: "release_delays (fst (Run_body b (answers sj wr))) = [backoff (sj_releases sj)]"
      unfolding step by (simp add: release_delays_append release_delays_emit)
    have ih: "release_delays (retry n b wr ?sj)
           = map (\<lambda>i. backoff (word_of_nat i)) [unat (sj_releases ?sj)..<10]
         \<and> Bury \<in> set (retry n b wr ?sj)"
      using Suc.prems lt un by (intro Suc.IH) simp_all
    have r: "retry (Suc n) b wr sj = fst (Run_body b (answers sj wr)) @ retry n b wr ?sj"
      using Suc.prems(1) f by (simp add: step)
    have u: "[unat (sj_releases sj)..<10] = unat (sj_releases sj) # [Suc (unat (sj_releases sj))..<10]"
      using lt by (rule upt_conv_Cons)
    show ?thesis
      unfolding r using ih d by (simp add: release_delays_append un u)
  qed
qed

lemma Run_body_Release:
  assumes "Release d \<in> set (fst (Run_body b env))"
  shows "policy_passes env \<and> d = backoff (released_count env)"
proof -
  have x: "executeJob j c env = (evs, r) \<Longrightarrow> Release d \<notin> set evs" for j c evs r
    using executeJob_events [of "Release d" j c env] by auto
  have h: "handleResult j r env = (evs, x) \<Longrightarrow> Release d \<in> set evs
      \<Longrightarrow> d = backoff (released_count env)" for j r evs x
    using handleResult_events [of "Release d" j r env] by auto
  show ?thesis
    using assms
    by (auto simp: Run_body_def Let_def emit_def policy_passes_def not_le
        split: reserve_result.splits if_splits prod.splits outcome.splits option.splits
        dest: x h)
qed

lemma backoff_small:
  assumes "k < 10"
  shows "sint (backoff (word_of_nat k)) = int (k ^ 4) * sint Second"
proof -
  have u: "unat (word_of_nat k :: uint64) = k"
    using assms by (simp add: unat_of_nat)
  have "unat (word_of_nat k :: uint64) \<le> 309" using assms u by simp
  then show ?thesis using backoff_seconds [of "word_of_nat k"] u by (simp add: Second_def)
qed

text \<open>
  Claim C7, as amended. Every release in an iteration of the loop carries the delay
  \<open>backoff r\<close> for the count \<open>r\<close> of result resolution, and the job had passed the policy
  check. When the query of result resolution fails, the delay is \<open>10 ^ 4\<close> seconds; when
  it answers the count the policy check saw, which is below 10, the delay is that count
  to the fourth power and at most \<open>9 ^ 4 = 6561\<close> seconds. A job that starts with no
  release and whose command always fails is released ten times, the release number
  \<open>k + 1\<close> with a delay of \<open>k ^ 4\<close> seconds, and is buried at the eleventh
  reservation: the tenth and last release waits \<open>9 ^ 4 = 6561\<close> seconds, as the comment
  in \<open>handleResult\<close> says (1h49m21s).
\<close>

theorem quartic_schedule:
  "(Release d \<in> set (fst (Run_body b env)) \<longrightarrow>
      policy_passes env \<and> d = backoff (released_count env)
      \<and> (snd (Releases2_r env) \<noteq> None \<longrightarrow> sint d = 10000 * sint Second)
      \<and> (snd (Releases2_r env) = None \<and> fst (Releases2_r env) = fst (Releases_r env) \<longrightarrow>
           sint d = int (unat (fst (Releases_r env)) ^ 4) * sint Second
           \<and> sint d \<le> 6561 * sint Second))
   \<and> (0 < sint (ttr - ttrMargin) \<and> Status wr \<noteq> 0 \<and> 11 \<le> n \<longrightarrow>
        release_delays (retry n b wr (new_job jid body ttr))
          = map (\<lambda>k. backoff (word_of_nat k)) [0..<10]
        \<and> Bury \<in> set (retry n b wr (new_job jid body ttr)))
   \<and> (k < 10 \<longrightarrow> sint (backoff (word_of_nat k)) = int (k ^ 4) * sint Second)
   \<and> sint (backoff 9) = 6561 * sint Second
   \<and> sint (backoff ReleaseTries) = 10000 * sint Second"
proof -
  have s: "sint Second = 1000000000" by (simp add: Second_def)
  have a: "policy_passes env \<and> d = backoff (released_count env)"
    if "Release d \<in> set (fst (Run_body b env))"
    using that by (rule Run_body_Release)
  have f: "sint (backoff ReleaseTries) = 10000 * sint Second"
    by (simp add: backoff_def ReleaseTries_def Second_def)
  have a1: "sint d = 10000 * sint Second"
    if "Release d \<in> set (fst (Run_body b env))" "snd (Releases2_r env) \<noteq> None"
    using a [OF that(1)] that(2) f by (simp add: released_count_def)
  have a2: "sint d = int (unat (fst (Releases_r env)) ^ 4) * sint Second
      \<and> sint d \<le> 6561 * sint Second"
    if h: "Release d \<in> set (fst (Run_body b env))" "snd (Releases2_r env) = None"
      "fst (Releases2_r env) = fst (Releases_r env)"
  proof -
    let ?r = "fst (Releases_r env)"
    have d: "d = backoff ?r" using a [OF h(1)] h(2,3) by (simp add: released_count_def)
    have "?r < 10" using a [OF h(1)] by (simp add: policy_passes_def ReleaseTries_def)
    then have lt: "unat ?r < 10" by (simp add: word_less_nat_alt)
    then have "unat ?r \<le> 309" by simp
    then have e: "sint d = int (unat ?r ^ 4) * sint Second"
      unfolding d s by (rule backoff_seconds)
    have "unat ?r \<le> 9" using lt by simp
    then have "unat ?r ^ 4 \<le> 9 ^ 4" by (rule power_mono) simp
    then have "int (unat ?r ^ 4) \<le> int (9 ^ 4)" by (rule iffD2 [OF of_nat_le_iff])
    moreover have "int (9 ^ 4) = 6561" by simp
    ultimately have "int (unat ?r ^ 4) * sint Second \<le> 6561 * sint Second"
      unfolding s by simp
    then show ?thesis using e by simp
  qed
  have c: "release_delays (retry n b wr (new_job jid body ttr))
          = map (\<lambda>k. backoff (word_of_nat k)) [0..<10]
        \<and> Bury \<in> set (retry n b wr (new_job jid body ttr))"
    if "0 < sint (ttr - ttrMargin)" "Status wr \<noteq> 0" "11 \<le> n"
    using retry_schedule [of "new_job jid body ttr" wr n b] that
    by (simp add: new_job_def)
  have e: "sint (backoff 9) = 6561 * sint Second"
    by (simp add: backoff_def Second_def)
  show ?thesis using a a1 a2 c e f backoff_small [of k] by blast
qed

lemma ten_delays:
  "map (\<lambda>k. backoff (word_of_nat k)) [0..<10] =
     [0, Second, 16 * Second, 81 * Second, 256 * Second, 625 * Second, 1296 * Second,
      2401 * Second, 4096 * Second, 6561 * Second]"
proof -
  have "[0..<10] = [0, 1, 2, 3, 4, 5, 6, 7, 8, 9 :: nat]"
    by (simp add: upt_rec)
  then show ?thesis by (simp add: backoff_def)
qed

text \<open>
  The ten releases of job 7 under a command that exits with status 1: the tenth delay is
  6561 seconds, not 10000.
\<close>

theorem tenth_release_counterexample:
  "release_delays (retry 11 dispatched_broker \<lparr>Status = 1, Err = None\<rparr>
       (new_job 7 [120] (5 * Second)))
     = [0, Second, 16 * Second, 81 * Second, 256 * Second, 625 * Second, 1296 * Second,
        2401 * Second, 4096 * Second, 6561 * Second]
   \<and> sint (6561 * Second) = 6561 * sint Second
   \<and> sint (6561 * Second) \<noteq> 10000 * sint Second"
proof -
  have "sj_state (new_job 7 [120] (5 * Second)) = Ready"
    "sj_timeouts (new_job 7 [120] (5 * Second)) = 0"
    "unat (sj_releases (new_job 7 [120] (5 * Second))) = 0"
    "0 < sint (sj_time_left (new_job 7 [120] (5 * Second)) - ttrMargin)"
    by (simp_all add: new_job_def Second_def ttrMargin_def)
  then have "release_delays (retry 11 dispatched_broker \<lparr>Status = 1, Err = None\<rparr>
       (new_job 7 [120] (5 * Second))) = map (\<lambda>k. backoff (word_of_nat k)) [0..<10]"
    using retry_schedule [of "new_job 7 [120] (5 * Second)" "\<lparr>Status = 1, Err = None\<rparr>" 11
        dispatched_broker]
    by simp
  then show ?thesis unfolding ten_delays by (simp add: Second_def)
qed

theorem quartic_schedule_witness:
  "Release (16 * Second) \<in> set (fst (Run_body dispatched_broker sample_env))
   \<and> sint (16 * Second) = int (2 ^ 4) * sint Second
   \<and> Release (10000 * Second) \<in> set (fst (Run_body sample_broker failing_release_env))
   \<and> sint (10000 * Second) = 10000 * sint Second
   \<and> 0 < sint (5 * Second - ttrMargin)
   \<and> release_delays (retry 11 sample_broker \<lparr>Status = 2, Err = None\<rparr>
        (new_job 7 [120] (5 * Second))) ! 9 = 6561 * Second
   \<and> sint (backoff (word_of_nat 9)) = int (9 ^ 4) * sint Second"
proof -
  have r1: "Release (16 * Second) \<in> set (fst (Run_body dispatched_broker sample_env))"
    by (simp add: sample_Run_body)
  have r2: "Run_body sample_broker failing_release_env =
     ([Reserve, JobReceived, Timeouts, Releases, TimeLeft, NewTicker (4 * Second),
       NewCommand ''cat'', StartWithStdin [120], TickerStop, NewTimer ttrMargin, TimerStop,
       Releases, Release (10000 * Second), Emit (sample_result 1 False)], Continue)"
    by (simp add: Run_body_def executeJob_def handleResult_def Let_def emit_def backoff_def
        sample_broker_def failing_release_env_def sample_env_def sample_result_def Second_def
        ttrMargin_def TimeoutTries_def ReleaseTries_def)
  have r3: "Release (10000 * Second) \<in> set (fst (Run_body sample_broker failing_release_env))"
    by (simp add: r2)
  have e: "snd (Releases2_r sample_env) = None" "fst (Releases2_r sample_env) = 2"
    "fst (Releases_r sample_env) = 2" "snd (Releases2_r failing_release_env) \<noteq> None"
    by (simp_all add: sample_env_def failing_release_env_def)
  have t: "0 < sint (5 * Second - ttrMargin)" "Status \<lparr>Status = 2, Err = None\<rparr> \<noteq> 0"
    "(11::nat) \<le> 11" "(9::nat) < 10"
    by (simp_all add: Second_def ttrMargin_def)
  have n: "map (\<lambda>k. backoff (word_of_nat k)) [0..<10] ! 9 = 6561 * Second"
    unfolding ten_delays by simp
  have d: "backoff (released_count sample_env) = 16 * Second"
    "backoff (released_count failing_release_env) = 10000 * Second"
    by (simp_all add: released_count_def sample_env_def failing_release_env_def backoff_def
        ReleaseTries_def)
  show ?thesis
    using quartic_schedule [where d = "16 * Second" and b = dispatched_broker
        and env = sample_env and k = 9]
      quartic_schedule [where d = "10000 * Second" and b = sample_broker
        and env = failing_release_env and ttr = "5 * Second"
        and wr = "\<lparr>Status = 2, Err = None\<rparr>" and n = 11 and jid = 7 and body = "[120]"]
      r1 r3 e t n
    by (simp add: d)
qed

end
